theory Spec2Isabelle
  imports Complex_Main "HOL-Library.Multiset"
begin

text \<open>
  A shallow embedding of the core of the visualizer: the protocol adapter, which turns
  inbound protocol events into canonical state and domain events; the coordinate mapper
  and the isometric grid; and the animation engine of the themes. The definitions follow
  the TypeScript sources function by function; the properties proved about them come
  after all definitions.
\<close>

section \<open>JavaScript numbers\<close>

text \<open>
  The program computes with JavaScript numbers. They are modelled by the special values of
  the number type (the two infinities, NaN and the negative zero) together with the
  rationals, on which finite arithmetic is carried out exactly: \<open>Fin 0\<close> is the positive
  zero, \<open>NZero\<close> the negative one. Rounding of finite results and overflow to an infinity
  are not part of the model; division by zero, the sign of a zero and the propagation of
  NaN are, as the language defines them.
\<close>

datatype jsnum = Fin rat | NZero | PInf | NInf | NaN

fun isneg :: "jsnum \<Rightarrow> bool" where
  "isneg (Fin r) = (r < 0)"
| "isneg NZero = True"
| "isneg NInf = True"
| "isneg PInf = False"
| "isneg NaN = False"

fun valof :: "jsnum \<Rightarrow> rat" where
  "valof (Fin r) = r"
| "valof NZero = 0"
| "valof PInf = 0"
| "valof NInf = 0"
| "valof NaN = 0"

fun isinf :: "jsnum \<Rightarrow> bool" where
  "isinf PInf = True"
| "isinf NInf = True"
| "isinf (Fin r) = False"
| "isinf NZero = False"
| "isinf NaN = False"

fun iszero :: "jsnum \<Rightarrow> bool" where
  "iszero (Fin r) = (r = 0)"
| "iszero NZero = True"
| "iszero PInf = False"
| "iszero NInf = False"
| "iszero NaN = False"

definition mkfin :: "bool \<Rightarrow> rat \<Rightarrow> jsnum" where
  "mkfin s r = (if r = 0 then (if s then NZero else Fin 0) else Fin r)"

definition mkinf :: "bool \<Rightarrow> jsnum" where
  "mkinf s = (if s then NInf else PInf)"

definition of_integer :: "int \<Rightarrow> jsnum" where
  "of_integer i = Fin (of_int i)"

text \<open>The operators \<open>+\<close>, unary \<open>-\<close>, binary \<open>-\<close>, \<open>*\<close> and \<open>/\<close> on numbers.\<close>

definition jadd :: "jsnum \<Rightarrow> jsnum \<Rightarrow> jsnum" where
  "jadd a b =
     (if a = NaN \<or> b = NaN then NaN
      else if isinf a then (if isinf b \<and> a \<noteq> b then NaN else a)
      else if isinf b then b
      else mkfin (a = NZero \<and> b = NZero) (valof a + valof b))"

fun jneg :: "jsnum \<Rightarrow> jsnum" where
  "jneg (Fin r) = (if r = 0 then NZero else Fin (- r))"
| "jneg NZero = Fin 0"
| "jneg PInf = NInf"
| "jneg NInf = PInf"
| "jneg NaN = NaN"

definition jsub :: "jsnum \<Rightarrow> jsnum \<Rightarrow> jsnum" where
  "jsub a b = jadd a (jneg b)"

definition jmul :: "jsnum \<Rightarrow> jsnum \<Rightarrow> jsnum" where
  "jmul a b =
     (if a = NaN \<or> b = NaN then NaN
      else if isinf a \<or> isinf b then
        (if iszero a \<or> iszero b then NaN else mkinf (isneg a \<noteq> isneg b))
      else mkfin (isneg a \<noteq> isneg b) (valof a * valof b))"

definition jdiv :: "jsnum \<Rightarrow> jsnum \<Rightarrow> jsnum" where
  "jdiv a b =
     (if a = NaN \<or> b = NaN then NaN
      else if isinf a then (if isinf b then NaN else mkinf (isneg a \<noteq> isneg b))
      else if isinf b then mkfin (isneg a \<noteq> isneg b) 0
      else if iszero b then (if iszero a then NaN else mkinf (isneg a \<noteq> isneg b))
      else mkfin (isneg a \<noteq> isneg b) (valof a / valof b))"

text \<open>The comparisons \<open><\<close> and \<open>>=\<close>: both are false as soon as an operand is NaN.\<close>

fun jlt :: "jsnum \<Rightarrow> jsnum \<Rightarrow> bool" where
  "jlt NaN b = False"
| "jlt a NaN = False"
| "jlt PInf b = False"
| "jlt a NInf = False"
| "jlt NInf b = True"
| "jlt a PInf = True"
| "jlt a b = (valof a < valof b)"

definition jge :: "jsnum \<Rightarrow> jsnum \<Rightarrow> bool" where
  "jge a b = (a \<noteq> NaN \<and> b \<noteq> NaN \<and> \<not> jlt a b)"

text \<open>\<open>Math.min\<close> of two numbers (NaN if either is; the negative zero is the smaller zero).\<close>

definition Math_min :: "jsnum \<Rightarrow> jsnum \<Rightarrow> jsnum" where
  "Math_min a b =
     (if a = NaN \<or> b = NaN then NaN
      else if jlt a b then a
      else if jlt b a then b
      else if a = NZero then a else b)"

text \<open>\<open>Math.round\<close>: the nearest integer, halves towards positive infinity.\<close>

fun Math_round :: "jsnum \<Rightarrow> jsnum" where
  "Math_round (Fin r) = mkfin (r < 0) (of_int \<lfloor>r + 1 / 2\<rfloor>)"
| "Math_round a = a"

text \<open>Truthiness of a number, as the operator \<open>||\<close> tests it.\<close>

definition truthy_num :: "jsnum \<Rightarrow> bool" where
  "truthy_num a = (a \<noteq> NaN \<and> \<not> iszero a)"

section \<open>The data model (core/types.ts)\<close>

record Position =
  px :: jsnum
  py :: jsnum
  pz :: "jsnum option"

datatype AgentState = IDLE | ACTIVE | THINKING | WORKING | WAITING | DISCONNECTED

datatype TaskState = PENDING | ASSIGNED | IN_PROGRESS | COMPLETED | CANCELLED

record Agent =
  agent_id :: string
  agent_name :: "string option"
  agent_color :: "string option"
  agent_state :: AgentState
  agent_position :: "Position option"
  createdAt :: nat
  lastActive :: nat

record Message =
  message_id :: string
  senderId :: string
  content :: string
  message_timestamp :: nat

record Task =
  task_id :: string
  description :: string
  task_state :: TaskState
  assignedTo :: "string option"
  task_createdAt :: nat
  completedAt :: "nat option"

section \<open>Domain events (events/EventTypes.ts)\<close>

text \<open>The \<open>changes\<close> field of the two "updated" events carries one of these diffs.\<close>

datatype AgentChanges =
  AgentStateChange AgentState nat
| AgentPositionChange Position nat

datatype TaskChanges =
  TaskAssignChange TaskState string
| TaskCompleteChange TaskState nat
| TaskPositionChange Position

text \<open>
  One constructor per shape of event object the adapter builds; the last argument is the
  \<open>timestamp\<close> field. \<open>CustomEvent\<close> is the object forwarded for an unknown type tag
  (the tag, then the rest of the parsed object, kept opaque).
\<close>

datatype DomainEvent =
  AgentRegisteredEvent Agent nat
| AgentLeftEvent string nat
| AgentStateChangedEvent string AgentState AgentState nat
| AgentUpdatedEvent Agent AgentChanges nat
| AgentMovedEvent string Position nat
| MessageAddedEvent Message nat
| MessagesClearedEvent nat
| TaskAddedEvent Task nat
| TaskAssignedEvent string string nat
| TaskCompletedEvent string nat
| TaskUpdatedEvent Task TaskChanges nat
| TaskMovedEvent string Position nat
| SystemResetEvent nat
| CustomEvent string string nat

fun event_type :: "DomainEvent \<Rightarrow> string" where
  "event_type (AgentRegisteredEvent a t) = ''agent:registered''"
| "event_type (AgentLeftEvent i t) = ''agent:left''"
| "event_type (AgentStateChangedEvent i old new t) = ''agent:state_changed''"
| "event_type (AgentUpdatedEvent a c t) = ''agent:updated''"
| "event_type (AgentMovedEvent i p t) = ''agent:moved''"
| "event_type (MessageAddedEvent m t) = ''message:added''"
| "event_type (MessagesClearedEvent t) = ''message:cleared''"
| "event_type (TaskAddedEvent k t) = ''task:added''"
| "event_type (TaskAssignedEvent k i t) = ''task:assigned''"
| "event_type (TaskCompletedEvent k t) = ''task:completed''"
| "event_type (TaskUpdatedEvent k c t) = ''task:updated''"
| "event_type (TaskMovedEvent k p t) = ''task:moved''"
| "event_type (SystemResetEvent t) = ''system:reset''"
| "event_type (CustomEvent tag rest t) = tag"

section \<open>The event emitter and the protocol adapter (utils/EventEmitter.ts, core/MCPAdapter.ts)\<close>

text \<open>
  A subscriber is a closure; the model names it by a number. What a subscriber can observe
  when it is called is the event object and, through the adapter's getters, the canonical
  state at that moment. Every call of \<open>emit\<close> is therefore recorded as an \<open>Emission\<close>:
  the event, the handlers that \<open>emit\<close> calls synchronously (those registered for the
  event's type, in registration order; none when the type has no entry), and the three
  canonical collections as they are during that call.
\<close>

record Emission =
  em_event :: DomainEvent
  em_receivers :: "nat list"
  seen_agents :: "string \<rightharpoonup> Agent"
  seen_messages :: "Message list"
  seen_tasks :: "string \<rightharpoonup> Task"

text \<open>
  The adapter's fields that message handling reads or writes. \<open>emitted\<close> is the record of
  the calls of \<open>emit\<close>, \<open>console\<close> that of the lines written to the console.
\<close>

record MCPAdapter =
  agents :: "string \<rightharpoonup> Agent"
  messages :: "Message list"
  tasks :: "string \<rightharpoonup> Task"
  eventHandlers :: "string \<rightharpoonup> nat list"
  emitted :: "Emission list"
  console :: "string list"

definition on :: "string \<Rightarrow> nat \<Rightarrow> MCPAdapter \<Rightarrow> MCPAdapter" where
  "on eventType handler s =
     s\<lparr>eventHandlers := (eventHandlers s)
          (eventType \<mapsto> (case eventHandlers s eventType of None \<Rightarrow> [] | Some hs \<Rightarrow> hs) @ [handler])\<rparr>"

definition emit :: "DomainEvent \<Rightarrow> MCPAdapter \<Rightarrow> MCPAdapter" where
  "emit event s =
     s\<lparr>emitted := emitted s @
        [\<lparr>em_event = event,
          em_receivers = (case eventHandlers s (event_type event) of None \<Rightarrow> [] | Some hs \<Rightarrow> hs),
          seen_agents = agents s, seen_messages = messages s, seen_tasks = tasks s\<rparr>]\<rparr>"

text \<open>A string is falsy exactly when it is empty; an absent field is falsy too.\<close>

fun or_default :: "string option \<Rightarrow> string \<Rightarrow> string" where
  "or_default None d = d"
| "or_default (Some v) d = (if v = [] then d else v)"

text \<open>The decimal digits of a time stamp, as a template string renders it.\<close>

fun string_of_nat :: "nat \<Rightarrow> string" where
  "string_of_nat n =
     (if n < 10 then [char_of (48 + n)]
      else string_of_nat (n div 10) @ [char_of (48 + n mod 10)])"

declare string_of_nat.simps [simp del]

text \<open>
  The parsed inbound object, one constructor per case of the \<open>switch\<close> in
  \<open>handleMessage\<close>, with the fields the handler of that case reads. \<open>InCustom\<close> is an
  object whose type tag is none of the eleven known ones.
\<close>

datatype Inbound =
  InAgentRegistered string "string option" "string option"
| InAgentLeft string
| InAgentWait string
| InAgentMoved string Position
| InMessageAdded string string
| InMessagesCleared
| InTaskAdded string string
| InTaskAssigned string string
| InTaskCompleted string
| InTaskMoved string Position
| InSystemReset
| InCustom string string

text \<open>
  Each handler takes the clock as a function \<open>now\<close>: \<open>now k\<close> is what the \<open>k\<close>-th call of
  \<open>Date.now()\<close> made by the handler returns (counting from 0, in the order of evaluation).
\<close>

definition handleAgentRegistered ::
  "(nat \<Rightarrow> nat) \<Rightarrow> string \<Rightarrow> string option \<Rightarrow> string option \<Rightarrow> MCPAdapter \<Rightarrow> MCPAdapter" where
  "handleAgentRegistered now aid nm col s =
     (let agent = \<lparr>agent_id = aid,
                   agent_name = Some (or_default nm (''Agent '' @ aid)),
                   agent_color = Some (or_default col ''#007bff''),
                   agent_state = IDLE, agent_position = None,
                   createdAt = now 0, lastActive = now 1\<rparr>;
          s1 = s\<lparr>agents := (agents s)(aid \<mapsto> agent)\<rparr>
      in emit (AgentRegisteredEvent agent (now 2)) s1)"

definition handleAgentLeft :: "(nat \<Rightarrow> nat) \<Rightarrow> string \<Rightarrow> MCPAdapter \<Rightarrow> MCPAdapter" where
  "handleAgentLeft now aid s =
     (case agents s aid of
        None \<Rightarrow> s
      | Some a \<Rightarrow> emit (AgentLeftEvent aid (now 0)) (s\<lparr>agents := (agents s)(aid := None)\<rparr>))"

definition handleAgentWait :: "(nat \<Rightarrow> nat) \<Rightarrow> string \<Rightarrow> MCPAdapter \<Rightarrow> MCPAdapter" where
  "handleAgentWait now aid s =
     (case agents s aid of
        None \<Rightarrow> s
      | Some a \<Rightarrow>
          (let oldState = agent_state a;
               agent = a\<lparr>agent_state := WAITING, lastActive := now 0\<rparr>;
               s1 = s\<lparr>agents := (agents s)(aid \<mapsto> agent)\<rparr>;
               s2 = emit (AgentStateChangedEvent aid oldState WAITING (now 1)) s1
           in emit (AgentUpdatedEvent agent (AgentStateChange WAITING (lastActive agent)) (now 2)) s2))"

definition handleMessageAdded ::
  "(nat \<Rightarrow> nat) \<Rightarrow> string \<Rightarrow> string \<Rightarrow> string \<Rightarrow> MCPAdapter \<Rightarrow> MCPAdapter" where
  "handleMessageAdded now rnd sender text s =
     (let message = \<lparr>message_id = ''msg-'' @ string_of_nat (now 0) @ ''-'' @ rnd,
                     senderId = sender, content = text, message_timestamp = now 1\<rparr>;
          s1 = s\<lparr>messages := messages s @ [message]\<rparr>
      in case agents s1 sender of
           None \<Rightarrow> emit (MessageAddedEvent message (now 2)) s1
         | Some a \<Rightarrow>
             (let oldState = agent_state a;
                  agent = a\<lparr>agent_state := ACTIVE, lastActive := now 2\<rparr>;
                  s2 = s1\<lparr>agents := (agents s1)(sender \<mapsto> agent)\<rparr>;
                  s3 = emit (AgentStateChangedEvent sender oldState ACTIVE (now 3)) s2;
                  s4 = emit (AgentUpdatedEvent agent (AgentStateChange ACTIVE (lastActive agent)) (now 4)) s3
              in emit (MessageAddedEvent message (now 5)) s4))"

definition handleMessagesCleared :: "(nat \<Rightarrow> nat) \<Rightarrow> MCPAdapter \<Rightarrow> MCPAdapter" where
  "handleMessagesCleared now s = emit (MessagesClearedEvent (now 0)) (s\<lparr>messages := []\<rparr>)"

definition handleTaskAdded :: "(nat \<Rightarrow> nat) \<Rightarrow> string \<Rightarrow> string \<Rightarrow> MCPAdapter \<Rightarrow> MCPAdapter" where
  "handleTaskAdded now tid descr s =
     (let task = \<lparr>task_id = tid, description = descr, task_state = PENDING,
                  assignedTo = None, task_createdAt = now 0, completedAt = None\<rparr>;
          s1 = s\<lparr>tasks := (tasks s)(tid \<mapsto> task)\<rparr>
      in emit (TaskAddedEvent task (now 1)) s1)"

definition handleTaskAssigned :: "(nat \<Rightarrow> nat) \<Rightarrow> string \<Rightarrow> string \<Rightarrow> MCPAdapter \<Rightarrow> MCPAdapter" where
  "handleTaskAssigned now tid aid s =
     (case tasks s tid of
        None \<Rightarrow> s
      | Some t \<Rightarrow>
          (let task = t\<lparr>task_state := ASSIGNED, assignedTo := Some aid\<rparr>;
               s1 = s\<lparr>tasks := (tasks s)(tid \<mapsto> task)\<rparr>;
               s2 = emit (TaskAssignedEvent tid aid (now 0)) s1;
               s3 = emit (TaskUpdatedEvent task (TaskAssignChange ASSIGNED aid) (now 1)) s2
           in case agents s3 aid of
                None \<Rightarrow> s3
              | Some a \<Rightarrow>
                  (let oldAgentState = agent_state a;
                       agent = a\<lparr>agent_state := WORKING, lastActive := now 2\<rparr>;
                       s4 = s3\<lparr>agents := (agents s3)(aid \<mapsto> agent)\<rparr>;
                       s5 = emit (AgentStateChangedEvent aid oldAgentState WORKING (now 3)) s4
                   in emit (AgentUpdatedEvent agent (AgentStateChange WORKING (lastActive agent)) (now 4)) s5)))"

text \<open>The test \<open>if (task.assignedTo)\<close> fails for an absent and for an empty assignee.\<close>

definition handleTaskCompleted :: "(nat \<Rightarrow> nat) \<Rightarrow> string \<Rightarrow> MCPAdapter \<Rightarrow> MCPAdapter" where
  "handleTaskCompleted now tid s =
     (case tasks s tid of
        None \<Rightarrow> s
      | Some t \<Rightarrow>
          (let task = t\<lparr>task_state := COMPLETED, completedAt := Some (now 0)\<rparr>;
               s1 = s\<lparr>tasks := (tasks s)(tid \<mapsto> task)\<rparr>;
               s2 = emit (TaskCompletedEvent tid (now 1)) s1;
               s3 = emit (TaskUpdatedEvent task (TaskCompleteChange COMPLETED (now 0)) (now 2)) s2
           in case assignedTo task of
                None \<Rightarrow> s3
              | Some aid \<Rightarrow>
                  (if aid = [] then s3
                   else case agents s3 aid of
                     None \<Rightarrow> s3
                   | Some a \<Rightarrow>
                       (let oldAgentState = agent_state a;
                            agent = a\<lparr>agent_state := IDLE, lastActive := now 3\<rparr>;
                            s4 = s3\<lparr>agents := (agents s3)(aid \<mapsto> agent)\<rparr>;
                            s5 = emit (AgentStateChangedEvent aid oldAgentState IDLE (now 4)) s4
                        in emit (AgentUpdatedEvent agent (AgentStateChange IDLE (lastActive agent)) (now 5)) s5))))"

definition handleAgentMoved :: "(nat \<Rightarrow> nat) \<Rightarrow> string \<Rightarrow> Position \<Rightarrow> MCPAdapter \<Rightarrow> MCPAdapter" where
  "handleAgentMoved now aid position s =
     (case agents s aid of
        None \<Rightarrow> s
      | Some a \<Rightarrow>
          (let agent = a\<lparr>agent_position := Some position, lastActive := now 0\<rparr>;
               s1 = s\<lparr>agents := (agents s)(aid \<mapsto> agent)\<rparr>;
               s2 = emit (AgentUpdatedEvent agent (AgentPositionChange position (lastActive agent)) (now 1)) s1
           in emit (AgentMovedEvent aid position (now 2)) s2))"

definition handleTaskMoved :: "(nat \<Rightarrow> nat) \<Rightarrow> string \<Rightarrow> Position \<Rightarrow> MCPAdapter \<Rightarrow> MCPAdapter" where
  "handleTaskMoved now tid position s =
     (case tasks s tid of
        None \<Rightarrow> s
      | Some task \<Rightarrow>
          (let s1 = s\<lparr>tasks := (tasks s)(tid \<mapsto> task)\<rparr>;
               s2 = emit (TaskUpdatedEvent task (TaskPositionChange position) (now 0)) s1
           in emit (TaskMovedEvent tid position (now 1)) s2))"

definition handleSystemReset :: "(nat \<Rightarrow> nat) \<Rightarrow> MCPAdapter \<Rightarrow> MCPAdapter" where
  "handleSystemReset now s =
     emit (SystemResetEvent (now 0)) (s\<lparr>agents := Map.empty, tasks := Map.empty, messages := []\<rparr>)"

text \<open>
  \<open>handleMessage\<close>: the argument is \<open>None\<close> when \<open>JSON.parse\<close> throws; the \<open>catch\<close> then
  writes a line to the console and the message is dropped. \<open>dispatch\<close> is the \<open>switch\<close>
  on the type tag. \<open>rnd\<close> is the string that
  \<open>Math.random().toString(36).substring(2, 9)\<close> yields in \<open>handleMessageAdded\<close>.
\<close>

fun dispatch :: "(nat \<Rightarrow> nat) \<Rightarrow> string \<Rightarrow> Inbound \<Rightarrow> MCPAdapter \<Rightarrow> MCPAdapter" where
  "dispatch now rnd (InAgentRegistered aid nm col) s = handleAgentRegistered now aid nm col s"
| "dispatch now rnd (InAgentLeft aid) s = handleAgentLeft now aid s"
| "dispatch now rnd (InAgentWait aid) s = handleAgentWait now aid s"
| "dispatch now rnd (InAgentMoved aid p) s = handleAgentMoved now aid p s"
| "dispatch now rnd (InMessageAdded sender text) s = handleMessageAdded now rnd sender text s"
| "dispatch now rnd InMessagesCleared s = handleMessagesCleared now s"
| "dispatch now rnd (InTaskAdded tid descr) s = handleTaskAdded now tid descr s"
| "dispatch now rnd (InTaskAssigned tid aid) s = handleTaskAssigned now tid aid s"
| "dispatch now rnd (InTaskCompleted tid) s = handleTaskCompleted now tid s"
| "dispatch now rnd (InTaskMoved tid p) s = handleTaskMoved now tid p s"
| "dispatch now rnd InSystemReset s = handleSystemReset now s"
| "dispatch now rnd (InCustom tag rest) s =
     (let s1 = emit (CustomEvent tag rest (now 0)) s
      in s1\<lparr>console := console s1 @ [''Forwarded custom event: '' @ tag]\<rparr>)"

definition handleMessage :: "(nat \<Rightarrow> nat) \<Rightarrow> string \<Rightarrow> Inbound option \<Rightarrow> MCPAdapter \<Rightarrow> MCPAdapter" where
  "handleMessage now rnd data s =
     (case data of
        None \<Rightarrow> s\<lparr>console := console s @ [''Error processing MCP message:'']\<rparr>
      | Some d \<Rightarrow> dispatch now rnd d s)"

text \<open>The adapter as its field initialisers leave it, and a small populated one.\<close>

definition MCPAdapter_init :: MCPAdapter where
  "MCPAdapter_init = \<lparr>agents = Map.empty, messages = [], tasks = Map.empty,
     eventHandlers = Map.empty, emitted = [], console = []\<rparr>"

definition clock0 :: "nat \<Rightarrow> nat" where
  "clock0 k = 1700000000000 + k"

definition pos0 :: Position where
  "pos0 = \<lparr>px = Fin 3, py = Fin 4, pz = None\<rparr>"

definition demo_adapter :: MCPAdapter where
  "demo_adapter =
     handleMessage clock0 ''k3x9q2a'' (Some (InTaskAdded ''T1'' ''write report''))
       (handleMessage clock0 ''k3x9q2a'' (Some (InAgentRegistered ''A1'' None None))
         (on ''agent:moved'' 2 (on ''task:assigned'' 1 MCPAdapter_init)))"

definition new_emissions :: "MCPAdapter \<Rightarrow> MCPAdapter \<Rightarrow> Emission list" where
  "new_emissions s s' = drop (length (emitted s)) (emitted s')"

definition observed_agent_state :: "Emission \<Rightarrow> string \<Rightarrow> AgentState option" where
  "observed_agent_state e aid = map_option agent_state (seen_agents e aid)"

definition demo_agent :: Agent where
  "demo_agent = \<lparr>agent_id = ''A1'', agent_name = Some ''Agent A1'',
     agent_color = Some ''#007bff'', agent_state = IDLE, agent_position = None,
     createdAt = clock0 0, lastActive = clock0 1\<rparr>"

definition demo_task :: Task where
  "demo_task = \<lparr>task_id = ''T1'', description = ''write report'', task_state = PENDING,
     assignedTo = None, task_createdAt = clock0 0, completedAt = None\<rparr>"

fun is_task_transition :: "Inbound \<Rightarrow> bool" where
  "is_task_transition (InTaskAssigned tid aid) = True"
| "is_task_transition (InTaskCompleted tid) = True"
| "is_task_transition d = False"

section \<open>The coordinate mapper (utils/IsometricUtils.ts)\<close>

definition gridToIso :: "jsnum \<Rightarrow> jsnum \<Rightarrow> jsnum \<Rightarrow> jsnum \<Rightarrow> Position" where
  "gridToIso gridX gridY tileWidth tileHeight =
     \<lparr>px = jmul (jsub gridX gridY) (jdiv tileWidth (Fin 2)),
      py = jmul (jadd gridX gridY) (jdiv tileHeight (Fin 2)),
      pz = None\<rparr>"

definition isoToGrid :: "jsnum \<Rightarrow> jsnum \<Rightarrow> jsnum \<Rightarrow> jsnum \<Rightarrow> Position" where
  "isoToGrid screenX screenY tileWidth tileHeight =
     (let gridX = jdiv (jadd (jdiv screenX (jdiv tileWidth (Fin 2)))
                             (jdiv screenY (jdiv tileHeight (Fin 2)))) (Fin 2);
          gridY = jdiv (jsub (jdiv screenY (jdiv tileHeight (Fin 2)))
                             (jdiv screenX (jdiv tileWidth (Fin 2)))) (Fin 2)
      in \<lparr>px = Math_round gridX, py = Math_round gridY, pz = None\<rparr>)"

definition calculateDepth :: "jsnum \<Rightarrow> jsnum \<Rightarrow> jsnum" where
  "calculateDepth gridX gridY = jadd gridX gridY"

section \<open>Visual entities and animation state (core/types.ts)\<close>

text \<open>
  A value held in a dynamically typed slot of an animation or of an entity: a number, a
  position object, any other object, or a string.
\<close>

datatype jsval = JNum jsnum | JPos Position | JObj | JStr string

record AnimationProperty =
  prop_start :: jsval
  prop_end :: jsval
  prop_current :: jsval

text \<open>
  \<open>properties\<close> lists the entries of the properties object in insertion order, which is
  the order \<open>Object.entries\<close> yields them in. \<open>onComplete\<close> names the callback closure.
\<close>

record AnimationState =
  active :: bool
  duration :: jsnum
  elapsed :: jsnum
  properties :: "(string \<times> AnimationProperty) list"
  onComplete :: "nat option"

datatype EntityType = AGENT | TASK | MESSAGE | ENVIRONMENT

text \<open>
  The fields \<open>size\<close>, \<open>data\<close>, \<open>render\<close> and \<open>update\<close> of a visual entity are not read
  or written by the grid or by the animation engine and are left out.
\<close>

record VisualEntity =
  ent_id :: string
  ent_type :: EntityType
  ent_position :: Position
  rotation :: "jsval option"
  scale :: "jsval option"
  opacity :: "jsval option"
  visible :: bool
  zIndex :: "jsnum option"
  animation :: "AnimationState option"

text \<open>
  Entities are objects shared by reference between the themes and the grid. A reference is
  a number, and the heap maps every reference to the entity it points to.
\<close>

type_synonym heap = "nat \<Rightarrow> VisualEntity"

section \<open>The isometric grid (core/IsometricGrid.ts)\<close>

datatype CellType = FLOOR | WALL | OBJECT | EMPTY

record GridCell =
  cell_x :: int
  cell_y :: int
  cell_z :: int
  walkable :: bool
  entities :: "nat list"
  cell_type :: CellType

record GridConfig =
  width :: int
  height :: int
  tileWidth :: jsnum
  tileHeight :: jsnum
  originX :: "jsnum option"
  originY :: "jsnum option"

text \<open>
  \<open>grid[x][y][z]\<close>: a list of columns, each a list of stacks, each a list of layers; a
  layer that was never written is a hole (\<open>None\<close>). Cell coordinates and the numbers of
  columns and rows are integers, as array indices and cell counts are; tile sizes and the
  origin are numbers.
\<close>

record IsometricGrid =
  grid :: "GridCell option list list list"
  config :: GridConfig

datatype error = TypeError

text \<open>\<open>v || 0\<close> for an optional number, and an optional number used in arithmetic.\<close>

fun or_zero :: "jsnum option \<Rightarrow> jsnum" where
  "or_zero None = Fin 0"
| "or_zero (Some v) = (if truthy_num v then v else Fin 0)"

fun num_of :: "jsnum option \<Rightarrow> jsnum" where
  "num_of None = NaN"
| "num_of (Some v) = v"

definition initializeGrid :: "GridConfig \<Rightarrow> GridCell option list list list" where
  "initializeGrid cfg =
     map (\<lambda>x. map (\<lambda>y. [Some \<lparr>cell_x = int x, cell_y = int y, cell_z = 0, walkable = True,
                              entities = [], cell_type = FLOOR\<rparr>])
                   [0..<nat (height cfg)])
         [0..<nat (width cfg)]"

text \<open>The constructor. It contains no \<open>throw\<close>: every configuration yields a grid.\<close>

definition new_IsometricGrid :: "GridConfig \<Rightarrow> error + IsometricGrid" where
  "new_IsometricGrid cfg =
     (let cfg1 = cfg\<lparr>originX := Some (or_zero (originX cfg)), originY := Some (or_zero (originY cfg))\<rparr>
      in Inr \<lparr>grid = initializeGrid cfg1, config = cfg1\<rparr>)"

definition isInBounds :: "IsometricGrid \<Rightarrow> int \<Rightarrow> int \<Rightarrow> int \<Rightarrow> bool" where
  "isInBounds g x y z =
     (x \<ge> 0 \<and> x < width (config g) \<and> y \<ge> 0 \<and> y < height (config g) \<and> z \<ge> 0)"

text \<open>
  Reading \<open>grid[x][y]\<close>: indexing \<open>undefined\<close> raises a TypeError, which is \<open>None\<close> here.
  Reading layer \<open>z\<close> of a stack: a hole and an index past the end are both \<open>undefined\<close>.
  Writing layer \<open>z\<close>: an index past the end extends the array, leaving holes.
\<close>

definition stack_at :: "IsometricGrid \<Rightarrow> nat \<Rightarrow> nat \<Rightarrow> GridCell option list option" where
  "stack_at g x y =
     (if x < length (grid g) then
        (if y < length (grid g ! x) then Some (grid g ! x ! y) else None)
      else None)"

definition layer_at :: "GridCell option list \<Rightarrow> nat \<Rightarrow> GridCell option" where
  "layer_at st z = (if z < length st then st ! z else None)"

definition set_layer :: "GridCell option list \<Rightarrow> nat \<Rightarrow> GridCell \<Rightarrow> GridCell option list" where
  "set_layer st z c =
     (if z < length st then st[z := Some c]
      else st @ replicate (z - length st) None @ [Some c])"

definition set_stack :: "IsometricGrid \<Rightarrow> nat \<Rightarrow> nat \<Rightarrow> GridCell option list \<Rightarrow> IsometricGrid" where
  "set_stack g x y st = g\<lparr>grid := (grid g)[x := (grid g ! x)[y := st]]\<rparr>"

text \<open>
  \<open>getCell\<close> returns a reference to the cell object in the grid (after creating it when
  the layer does not exist yet). The model returns the cell and the grid; a caller that
  writes to the cell writes it back to its slot with \<open>put_cell\<close>.
\<close>

definition getCell :: "IsometricGrid \<Rightarrow> int \<Rightarrow> int \<Rightarrow> int \<Rightarrow> error + (GridCell option \<times> IsometricGrid)" where
  "getCell g x y z =
     (if \<not> isInBounds g x y z then Inr (None, g)
      else case stack_at g (nat x) (nat y) of
        None \<Rightarrow> Inl TypeError
      | Some st \<Rightarrow>
          (case layer_at st (nat z) of
             Some c \<Rightarrow> Inr (Some c, g)
           | None \<Rightarrow>
               (let c = \<lparr>cell_x = x, cell_y = y, cell_z = z, walkable = (z = 0),
                         entities = [], cell_type = (if z = 0 then FLOOR else EMPTY)\<rparr>
                in Inr (Some c, set_stack g (nat x) (nat y) (set_layer st (nat z) c)))))"

definition put_cell :: "IsometricGrid \<Rightarrow> int \<Rightarrow> int \<Rightarrow> int \<Rightarrow> GridCell \<Rightarrow> IsometricGrid" where
  "put_cell g x y z c =
     set_stack g (nat x) (nat y) ((grid g ! nat x ! nat y)[nat z := Some c])"

definition gridToScreen :: "IsometricGrid \<Rightarrow> int \<Rightarrow> int \<Rightarrow> int \<Rightarrow> Position" where
  "gridToScreen g x y z =
     (let isoPos = gridToIso (of_integer x) (of_integer y)
                     (tileWidth (config g)) (tileHeight (config g))
      in \<lparr>px = jadd (px isoPos) (num_of (originX (config g))),
          py = jsub (jadd (py isoPos) (num_of (originY (config g))))
                    (jdiv (jmul (of_integer z) (tileHeight (config g))) (Fin 2)),
          pz = Some (of_integer z)\<rparr>)"

definition screenToGrid :: "IsometricGrid \<Rightarrow> jsnum \<Rightarrow> jsnum \<Rightarrow> Position" where
  "screenToGrid g sx sy =
     isoToGrid (jsub sx (num_of (originX (config g)))) (jsub sy (num_of (originY (config g))))
       (tileWidth (config g)) (tileHeight (config g))"

definition placeEntity ::
  "IsometricGrid \<Rightarrow> heap \<Rightarrow> nat \<Rightarrow> int \<Rightarrow> int \<Rightarrow> int \<Rightarrow> error + (bool \<times> IsometricGrid \<times> heap)" where
  "placeEntity g h entity x y z =
     (case getCell g x y z of
        Inl e \<Rightarrow> Inl e
      | Inr (None, g1) \<Rightarrow> Inr (False, g1, h)
      | Inr (Some cell, g1) \<Rightarrow>
          (let screenPos = gridToScreen g1 x y z;
               h1 = h(entity := (h entity)
                      \<lparr>ent_position := screenPos,
                       zIndex := Some (jadd (calculateDepth (of_integer x) (of_integer y))
                                            (jmul (of_integer z) (Fin 100)))\<rparr>);
               g2 = put_cell g1 x y z (cell\<lparr>entities := entities cell @ [entity]\<rparr>)
           in Inr (True, g2, h1)))"

definition setWalkable :: "IsometricGrid \<Rightarrow> int \<Rightarrow> int \<Rightarrow> int \<Rightarrow> bool \<Rightarrow> error + IsometricGrid" where
  "setWalkable g x y z w =
     (case getCell g x y z of
        Inl e \<Rightarrow> Inl e
      | Inr (None, g1) \<Rightarrow> Inr g1
      | Inr (Some cell, g1) \<Rightarrow> Inr (put_cell g1 x y z (cell\<lparr>walkable := w\<rparr>)))"

definition setCellType :: "IsometricGrid \<Rightarrow> int \<Rightarrow> int \<Rightarrow> int \<Rightarrow> CellType \<Rightarrow> error + IsometricGrid" where
  "setCellType g x y z t =
     (case getCell g x y z of
        Inl e \<Rightarrow> Inl e
      | Inr (None, g1) \<Rightarrow> Inr g1
      | Inr (Some cell, g1) \<Rightarrow>
          Inr (put_cell g1 x y z
                 (if t = WALL \<or> t = OBJECT then cell\<lparr>cell_type := t, walkable := False\<rparr>
                  else cell\<lparr>cell_type := t\<rparr>)))"

definition isWalkable :: "IsometricGrid \<Rightarrow> int \<Rightarrow> int \<Rightarrow> int \<Rightarrow> error + (bool \<times> IsometricGrid)" where
  "isWalkable g x y z =
     (case getCell g x y z of
        Inl e \<Rightarrow> Inl e
      | Inr (None, g1) \<Rightarrow> Inr (False, g1)
      | Inr (Some cell, g1) \<Rightarrow> Inr (walkable cell, g1))"



fun cell_entities :: "GridCell option \<Rightarrow> nat list" where
  "cell_entities None = []"
| "cell_entities (Some cell) = entities cell"

definition placed :: "IsometricGrid \<Rightarrow> nat list" where
  "placed g =
     concat (map (\<lambda>column. concat (map (\<lambda>st. concat (map cell_entities st)) column)) (grid g))"



text \<open>A grid whose array has the shape the constructor gives it.\<close>

definition wf_grid :: "IsometricGrid \<Rightarrow> bool" where
  "wf_grid g =
     (length (grid g) = nat (width (config g))
      \<and> list_all (\<lambda>column. length column = nat (height (config g))) (grid g))"

text \<open>Sample values: a configuration, a blank entity and a heap of blank entities.\<close>

definition demo_config :: "int \<Rightarrow> int \<Rightarrow> GridConfig" where
  "demo_config w h = \<lparr>width = w, height = h, tileWidth = Fin 64, tileHeight = Fin 32,
                       originX = None, originY = None\<rparr>"

definition blank_entity :: VisualEntity where
  "blank_entity = \<lparr>ent_id = ''e'', ent_type = AGENT,
     ent_position = \<lparr>px = Fin 0, py = Fin 0, pz = None\<rparr>,
     rotation = None, scale = None, opacity = None, visible = True, zIndex = None,
     animation = None\<rparr>"

definition blank_heap :: heap where
  "blank_heap r = blank_entity"

definition demo_grid :: IsometricGrid where
  "demo_grid = \<lparr>grid = initializeGrid (demo_config 2 2),
                config = (demo_config 2 2)\<lparr>originX := Some (Fin 0), originY := Some (Fin 0)\<rparr>\<rparr>"

text \<open>
  Notions used in the properties of the grid: the cell stored at a coordinate, numbers
  that are neither NaN nor infinite, the depth key as a rational, and one element
  occurring only before another in a list.
\<close>

definition cell_at :: "IsometricGrid \<Rightarrow> int \<Rightarrow> int \<Rightarrow> int \<Rightarrow> GridCell option" where
  "cell_at g x y z = layer_at (grid g ! nat x ! nat y) (nat z)"





text \<open>What \<open>getCell\<close> returns for a cell inside the bounds.\<close>

definition default_cell :: "int \<Rightarrow> int \<Rightarrow> int \<Rightarrow> GridCell" where
  "default_cell x y z = \<lparr>cell_x = x, cell_y = y, cell_z = z, walkable = (z = 0),
                         entities = [], cell_type = (if z = 0 then FLOOR else EMPTY)\<rparr>"



section \<open>The animation engine (the abstract base class of the themes)\<close>

text \<open>
  The theme keeps its entities in a \<open>Map\<close> from entity id to entity object: an
  association list in insertion order, holding references into the heap.
\<close>

record BaseTheme =
  theme_entities :: "(string \<times> nat) list"

text \<open>
  \<open>Map.prototype.set\<close>, and likewise the assignment \<open>object[key] = value\<close>: an existing
  key keeps its place, a new key goes last.
\<close>

fun map_set :: "'k \<Rightarrow> 'v \<Rightarrow> ('k \<times> 'v) list \<Rightarrow> ('k \<times> 'v) list" where
  "map_set k v [] = [(k, v)]"
| "map_set k v ((k', v') # kvs) = (if k' = k then (k, v) # kvs else (k', v') # map_set k v kvs)"

text \<open>
  The object spread \<open>{ ...v }\<close>: a shallow copy of an object; spreading a number or a
  string does not give the number or the string back but an object.
\<close>

fun spread :: "jsval \<Rightarrow> jsval" where
  "spread (JPos p) = JPos p"
| "spread (JNum n) = JObj"
| "spread JObj = JObj"
| "spread (JStr s) = JObj"

definition createAnimation ::
  "heap \<Rightarrow> BaseTheme \<Rightarrow> nat \<Rightarrow> string \<Rightarrow> jsval \<Rightarrow> jsval \<Rightarrow> jsnum option \<Rightarrow> nat option
     \<Rightarrow> heap \<times> BaseTheme" where
  "createAnimation h th entity property startValue endValue dur cb =
     (let d = (case dur of None \<Rightarrow> Fin 500 | Some v \<Rightarrow> v);
          a0 = (case animation (h entity) of
                  None \<Rightarrow> \<lparr>active = False, duration = d, elapsed = Fin 0, properties = [],
                            onComplete = None\<rparr>
                | Some a \<Rightarrow> a);
          a1 = a0\<lparr>active := True, duration := d, elapsed := Fin 0, onComplete := cb\<rparr>;
          a2 = a1\<lparr>properties := map_set property
                   \<lparr>prop_start = spread startValue, prop_end = spread endValue,
                    prop_current = spread startValue\<rparr> (properties a1)\<rparr>;
          h1 = h(entity := (h entity)\<lparr>animation := Some a2\<rparr>)
      in (h1, th\<lparr>theme_entities := map_set (ent_id (h1 entity)) entity (theme_entities th)\<rparr>))"

text \<open>
  Reading the fields \<open>x\<close>, \<open>y\<close>, \<open>z\<close> of a value (\<open>None\<close> is \<open>undefined\<close>), and a value
  used as a number in a subtraction.
\<close>

fun field_x :: "jsval \<Rightarrow> jsnum option" where
  "field_x (JPos p) = Some (px p)"
| "field_x v = None"

fun field_y :: "jsval \<Rightarrow> jsnum option" where
  "field_y (JPos p) = Some (py p)"
| "field_y v = None"

fun field_z :: "jsval \<Rightarrow> jsnum option" where
  "field_z (JPos p) = pz p"
| "field_z v = None"

definition lerp :: "jsnum \<Rightarrow> jsnum \<Rightarrow> jsnum \<Rightarrow> jsnum" where
  "lerp s e progress = jadd s (jmul (jsub e s) progress)"

text \<open>
  \<open>start + (end - start) * progress\<close> on dynamically typed values. With a number for
  \<open>start\<close> the sum is numeric (an \<open>end\<close> that is an object counts as NaN). With an object
  for \<open>start\<close> the difference is NaN and \<open>+\<close> concatenates strings. Strings do not occur
  as tracked values of the numeric properties; they count as objects here.
\<close>

fun to_number :: "jsval \<Rightarrow> jsnum" where
  "to_number (JNum n) = n"
| "to_number v = NaN"

fun scalar_lerp :: "jsval \<Rightarrow> jsval \<Rightarrow> jsnum \<Rightarrow> jsval" where
  "scalar_lerp (JNum s) e progress = JNum (lerp s (to_number e) progress)"
| "scalar_lerp s e progress = JStr ''[object Object]NaN''"

definition apply_property :: "jsnum \<Rightarrow> VisualEntity \<Rightarrow> string \<times> AnimationProperty \<Rightarrow> VisualEntity" where
  "apply_property progress e pv =
     (let property = fst pv; values = snd pv in
      if property = ''position'' then
        (let p1 = (ent_position e)
               \<lparr>px := lerp (num_of (field_x (prop_start values))) (num_of (field_x (prop_end values))) progress,
                py := lerp (num_of (field_y (prop_start values))) (num_of (field_y (prop_end values))) progress\<rparr>;
             p2 = (if field_z (prop_start values) \<noteq> None \<and> field_z (prop_end values) \<noteq> None
                   then p1\<lparr>pz := Some (lerp (num_of (field_z (prop_start values)))
                                             (num_of (field_z (prop_end values))) progress)\<rparr>
                   else p1)
         in e\<lparr>ent_position := p2\<rparr>)
      else if property = ''scale'' then
        e\<lparr>scale := Some (scalar_lerp (prop_start values) (prop_end values) progress)\<rparr>
      else if property = ''rotation'' then
        e\<lparr>rotation := Some (scalar_lerp (prop_start values) (prop_end values) progress)\<rparr>
      else if property = ''opacity'' then
        e\<lparr>opacity := Some (scalar_lerp (prop_start values) (prop_end values) progress)\<rparr>
      else e)"

definition progress_of :: "AnimationState \<Rightarrow> jsnum \<Rightarrow> jsnum" where
  "progress_of a deltaTime = Math_min (jdiv (jadd (elapsed a) deltaTime) (duration a)) (Fin 1)"

text \<open>
  The body of the loop of \<open>processAnimations\<close> for one entity: the entity afterwards, and
  the completion callback if the body invokes one. (An entity always has a position
  object, and every entry of the properties object has a value, so the two tests on them
  in the inner loop always succeed.)
\<close>

definition animate_entity :: "jsnum \<Rightarrow> VisualEntity \<Rightarrow> VisualEntity \<times> nat option" where
  "animate_entity deltaTime e =
     (case animation e of
        None \<Rightarrow> (e, None)
      | Some a \<Rightarrow>
          if \<not> active a then (e, None)
          else
            (let progress = progress_of a deltaTime;
                 a1 = a\<lparr>elapsed := jadd (elapsed a) deltaTime\<rparr>;
                 e1 = foldl (apply_property progress) (e\<lparr>animation := Some a1\<rparr>) (properties a1)
             in if jge progress (Fin 1)
                then (e1\<lparr>animation := Some (a1\<lparr>active := False\<rparr>)\<rparr>, onComplete a1)
                else (e1, None)))"

text \<open>
  \<open>processAnimations\<close> visits the entities of the theme in the order of the map. What a
  completion callback does when it runs is outside the animation engine; each invocation
  is recorded with the entity it belongs to.
\<close>

definition animate_ref :: "jsnum \<Rightarrow> heap \<times> (nat \<times> nat) list \<Rightarrow> nat \<Rightarrow> heap \<times> (nat \<times> nat) list" where
  "animate_ref deltaTime hl r =
     (let res = animate_entity deltaTime (fst hl r)
      in ((fst hl)(r := fst res),
          snd hl @ (case snd res of None \<Rightarrow> [] | Some cb \<Rightarrow> [(r, cb)])))"

definition processAnimations :: "heap \<Rightarrow> BaseTheme \<Rightarrow> jsnum \<Rightarrow> heap \<times> (nat \<times> nat) list" where
  "processAnimations h th deltaTime =
     foldl (animate_ref deltaTime) (h, []) (map snd (theme_entities th))"

text \<open>Successive frames: one call of \<open>processAnimations\<close> per element of the list.\<close>

fun frames :: "jsnum list \<Rightarrow> heap \<Rightarrow> BaseTheme \<Rightarrow> heap \<times> (nat \<times> nat) list" where
  "frames [] h th = (h, [])"
| "frames (dt # dts) h th =
     (let r1 = processAnimations h th dt; r2 = frames dts (fst r1) th
      in (fst r2, snd r1 @ snd r2))"

definition callbacks_of :: "nat \<Rightarrow> (nat \<times> nat) list \<Rightarrow> nat list" where
  "callbacks_of r fired = map snd (filter (\<lambda>rc. fst rc = r) fired)"

text \<open>Sample values: an entity on its way from \<open>(0, 0)\<close> to \<open>(100, 0)\<close>.\<close>

definition move_animation :: "jsnum \<Rightarrow> jsnum \<Rightarrow> AnimationState" where
  "move_animation d el =
     \<lparr>active = True, duration = d, elapsed = el,
      properties = [(''position'',
         \<lparr>prop_start = JPos \<lparr>px = Fin 0, py = Fin 0, pz = None\<rparr>,
          prop_end = JPos \<lparr>px = Fin 100, py = Fin 0, pz = None\<rparr>,
          prop_current = JPos \<lparr>px = Fin 0, py = Fin 0, pz = None\<rparr>\<rparr>)],
      onComplete = Some 7\<rparr>"

definition moving_heap :: "jsnum \<Rightarrow> jsnum \<Rightarrow> heap" where
  "moving_heap d el = blank_heap(1 := blank_entity\<lparr>ent_position := \<lparr>px = Fin 30, py = Fin 0, pz = None\<rparr>,
                                                 animation := Some (move_animation d el)\<rparr>)"

definition one_entity_theme :: BaseTheme where
  "one_entity_theme = \<lparr>theme_entities = [(''e'', 1)]\<rparr>"

definition entity_after :: "heap \<times> (nat \<times> nat) list \<Rightarrow> nat \<Rightarrow> VisualEntity" where
  "entity_after hl r = fst hl r"

definition active_after :: "heap \<times> (nat \<times> nat) list \<Rightarrow> nat \<Rightarrow> bool option" where
  "active_after hl r = map_option active (animation (fst hl r))"

definition callback_of :: "VisualEntity \<Rightarrow> nat option" where
  "callback_of e = (case animation e of None \<Rightarrow> None | Some a \<Rightarrow> onComplete a)"

definition is_active :: "VisualEntity \<Rightarrow> bool" where
  "is_active e = (case animation e of None \<Rightarrow> False | Some a \<Rightarrow> active a)"

definition then_frame :: "heap \<times> BaseTheme \<Rightarrow> jsnum \<Rightarrow> heap \<times> (nat \<times> nat) list" where
  "then_frame c deltaTime = processAnimations (fst c) (snd c) deltaTime"

definition tracked :: "VisualEntity \<Rightarrow> string list" where
  "tracked e = (case animation e of None \<Rightarrow> [] | Some a \<Rightarrow> map fst (properties a))"

fun option_list :: "'a option \<Rightarrow> 'a list" where
  "option_list None = []"
| "option_list (Some v) = [v]"

section \<open>Properties of the protocol adapter\<close>

lemma emit_simps:
  "agents (emit ev s) = agents s" "tasks (emit ev s) = tasks s" "messages (emit ev s) = messages s"
  "eventHandlers (emit ev s) = eventHandlers s" "console (emit ev s) = console s"
  "emitted (emit ev s) = emitted s @
        [\<lparr>em_event = ev,
          em_receivers = (case eventHandlers s (event_type ev) of None \<Rightarrow> [] | Some hs \<Rightarrow> hs),
          seen_agents = agents s, seen_messages = messages s, seen_tasks = tasks s\<rparr>]"
  by (simp_all add: emit_def)

lemma demo_agents: "agents demo_adapter = [''A1'' \<mapsto> demo_agent]"
  by (simp add: demo_adapter_def handleMessage_def handleTaskAdded_def handleAgentRegistered_def
      emit_def on_def MCPAdapter_init_def Let_def demo_agent_def demo_task_def)

lemma demo_tasks: "tasks demo_adapter = [''T1'' \<mapsto> demo_task]"
  by (simp add: demo_adapter_def handleMessage_def handleTaskAdded_def handleAgentRegistered_def
      emit_def on_def MCPAdapter_init_def Let_def demo_agent_def demo_task_def)

lemma demo_handlers: "eventHandlers demo_adapter = [''task:assigned'' \<mapsto> [1], ''agent:moved'' \<mapsto> [2]]"
  by (simp add: demo_adapter_def handleMessage_def handleTaskAdded_def handleAgentRegistered_def
      emit_def on_def MCPAdapter_init_def Let_def demo_agent_def demo_task_def)

lemma mutation_before_emission:
  assumes "\<not> is_task_transition d"
  shows "\<forall>e \<in> set (new_emissions s (handleMessage now rnd (Some d) s)).
           seen_agents e = agents (handleMessage now rnd (Some d) s)
         \<and> seen_tasks e = tasks (handleMessage now rnd (Some d) s)
         \<and> seen_messages e = messages (handleMessage now rnd (Some d) s)"
proof (cases d)
  case (InAgentRegistered aid nm col)
  then show ?thesis
    by (simp add: handleMessage_def new_emissions_def emit_simps Let_def handleAgentRegistered_def)
next
  case (InAgentLeft aid)
  then show ?thesis
    by (simp add: handleMessage_def new_emissions_def emit_simps handleAgentLeft_def
        split: option.splits)
next
  case (InAgentWait aid)
  then show ?thesis
    by (simp add: handleMessage_def new_emissions_def emit_simps Let_def handleAgentWait_def
        split: option.splits)
next
  case (InAgentMoved aid p)
  then show ?thesis
    by (simp add: handleMessage_def new_emissions_def emit_simps Let_def handleAgentMoved_def
        split: option.splits)
next
  case (InMessageAdded sender body)
  then show ?thesis
    by (simp add: handleMessage_def new_emissions_def emit_simps Let_def handleMessageAdded_def
        split: option.splits)
next
  case InMessagesCleared
  then show ?thesis
    by (simp add: handleMessage_def new_emissions_def emit_simps handleMessagesCleared_def)
next
  case (InTaskAdded tid descr)
  then show ?thesis
    by (simp add: handleMessage_def new_emissions_def emit_simps Let_def handleTaskAdded_def)
next
  case (InTaskAssigned tid aid)
  with assms show ?thesis by simp
next
  case (InTaskCompleted tid)
  with assms show ?thesis by simp
next
  case (InTaskMoved tid p)
  then show ?thesis
    by (simp add: handleMessage_def new_emissions_def emit_simps Let_def handleTaskMoved_def
        split: option.splits)
next
  case InSystemReset
  then show ?thesis
    by (simp add: handleMessage_def new_emissions_def emit_simps handleSystemReset_def)
next
  case (InCustom tag rest)
  then show ?thesis
    by (simp add: handleMessage_def new_emissions_def emit_simps Let_def)
qed

lemma task_assigned_emissions:
  assumes "tasks s tid = Some t" and "agents s aid = Some a"
  shows "new_emissions s (handleMessage now rnd (Some (InTaskAssigned tid aid)) s) =
     [\<lparr>em_event = TaskAssignedEvent tid aid (now 0),
       em_receivers = (case eventHandlers s ''task:assigned'' of None \<Rightarrow> [] | Some hs \<Rightarrow> hs),
       seen_agents = agents s, seen_messages = messages s,
       seen_tasks = (tasks s)(tid \<mapsto> t\<lparr>task_state := ASSIGNED, assignedTo := Some aid\<rparr>)\<rparr>,
      \<lparr>em_event = TaskUpdatedEvent (t\<lparr>task_state := ASSIGNED, assignedTo := Some aid\<rparr>)
                    (TaskAssignChange ASSIGNED aid) (now 1),
       em_receivers = (case eventHandlers s ''task:updated'' of None \<Rightarrow> [] | Some hs \<Rightarrow> hs),
       seen_agents = agents s, seen_messages = messages s,
       seen_tasks = (tasks s)(tid \<mapsto> t\<lparr>task_state := ASSIGNED, assignedTo := Some aid\<rparr>)\<rparr>,
      \<lparr>em_event = AgentStateChangedEvent aid (agent_state a) WORKING (now 3),
       em_receivers = (case eventHandlers s ''agent:state_changed'' of None \<Rightarrow> [] | Some hs \<Rightarrow> hs),
       seen_agents = (agents s)(aid \<mapsto> a\<lparr>agent_state := WORKING, lastActive := now 2\<rparr>),
       seen_messages = messages s,
       seen_tasks = (tasks s)(tid \<mapsto> t\<lparr>task_state := ASSIGNED, assignedTo := Some aid\<rparr>)\<rparr>,
      \<lparr>em_event = AgentUpdatedEvent (a\<lparr>agent_state := WORKING, lastActive := now 2\<rparr>)
                    (AgentStateChange WORKING (now 2)) (now 4),
       em_receivers = (case eventHandlers s ''agent:updated'' of None \<Rightarrow> [] | Some hs \<Rightarrow> hs),
       seen_agents = (agents s)(aid \<mapsto> a\<lparr>agent_state := WORKING, lastActive := now 2\<rparr>),
       seen_messages = messages s,
       seen_tasks = (tasks s)(tid \<mapsto> t\<lparr>task_state := ASSIGNED, assignedTo := Some aid\<rparr>)\<rparr>]"
  using assms
  by (simp add: handleMessage_def new_emissions_def handleTaskAssigned_def emit_simps Let_def)

lemma demo_moved_emissions:
  "map em_event (new_emissions demo_adapter
       (handleMessage clock0 ''k3x9q2a'' (Some (InAgentMoved ''A1'' pos0)) demo_adapter)) =
     [AgentUpdatedEvent (demo_agent\<lparr>agent_position := Some pos0, lastActive := clock0 0\<rparr>)
        (AgentPositionChange pos0 (clock0 0)) (clock0 1),
      AgentMovedEvent ''A1'' pos0 (clock0 2)]"
  by (simp add: new_emissions_def handleMessage_def handleAgentMoved_def emit_simps Let_def
      demo_agents)

text \<open>
  C1, as stated, fails. In \<open>demo_adapter\<close> the task \<open>T1\<close> and the idle agent \<open>A1\<close>
  exist and handler 1 is subscribed to \<open>task:assigned\<close>. The first event emitted while
  \<open>task:assigned\<close> is handled is the "task assigned" event; handler 1 receives it, and
  the agent it can read at that moment is still \<open>idle\<close>, not \<open>working\<close>.
\<close>

theorem C1_counterexample:
  "map em_event (new_emissions demo_adapter
       (handleMessage clock0 ''k3x9q2a'' (Some (InTaskAssigned ''T1'' ''A1'')) demo_adapter))
     ! 0 = TaskAssignedEvent ''T1'' ''A1'' (clock0 0)
   \<and> em_receivers (new_emissions demo_adapter
       (handleMessage clock0 ''k3x9q2a'' (Some (InTaskAssigned ''T1'' ''A1'')) demo_adapter) ! 0) = [1]
   \<and> observed_agent_state (new_emissions demo_adapter
       (handleMessage clock0 ''k3x9q2a'' (Some (InTaskAssigned ''T1'' ''A1'')) demo_adapter) ! 0) ''A1''
      = Some IDLE"
  by (simp add: new_emissions_def observed_agent_state_def handleMessage_def handleTaskAssigned_def
      emit_def demo_agents demo_tasks demo_handlers Let_def demo_agent_def)

text \<open>
  C1, amended. For every inbound event other than \<open>task:assigned\<close> and \<open>task:completed\<close>,
  every event emitted while it is handled is emitted after all mutation of the canonical
  state: what a subscriber observes is the final state. While \<open>task:assigned\<close> is handled
  (task and assignee both known), the task is updated before the first event, but the
  assignee is updated only after the "task assigned" and "task updated" events have been
  emitted: their subscribers observe the agent as it was, and the agent is \<open>working\<close> from
  the "agent state changed" event on.
\<close>

theorem C1_emission_order:
  "(\<not> is_task_transition d \<longrightarrow>
      (\<forall>e \<in> set (new_emissions s (handleMessage now rnd (Some d) s)).
           seen_agents e = agents (handleMessage now rnd (Some d) s)
         \<and> seen_tasks e = tasks (handleMessage now rnd (Some d) s)
         \<and> seen_messages e = messages (handleMessage now rnd (Some d) s)))
   \<and> (tasks s tid = Some t \<and> agents s aid = Some a \<longrightarrow>
      map em_event (new_emissions s (handleMessage now rnd (Some (InTaskAssigned tid aid)) s)) =
        [TaskAssignedEvent tid aid (now 0),
         TaskUpdatedEvent (t\<lparr>task_state := ASSIGNED, assignedTo := Some aid\<rparr>)
           (TaskAssignChange ASSIGNED aid) (now 1),
         AgentStateChangedEvent aid (agent_state a) WORKING (now 3),
         AgentUpdatedEvent (a\<lparr>agent_state := WORKING, lastActive := now 2\<rparr>)
           (AgentStateChange WORKING (now 2)) (now 4)]
    \<and> map seen_tasks (new_emissions s (handleMessage now rnd (Some (InTaskAssigned tid aid)) s)) =
        replicate 4 ((tasks s)(tid \<mapsto> t\<lparr>task_state := ASSIGNED, assignedTo := Some aid\<rparr>))
    \<and> map seen_agents (new_emissions s (handleMessage now rnd (Some (InTaskAssigned tid aid)) s)) =
        [agents s, agents s,
         (agents s)(aid \<mapsto> a\<lparr>agent_state := WORKING, lastActive := now 2\<rparr>),
         (agents s)(aid \<mapsto> a\<lparr>agent_state := WORKING, lastActive := now 2\<rparr>)]
    \<and> agents (handleMessage now rnd (Some (InTaskAssigned tid aid)) s) =
        (agents s)(aid \<mapsto> a\<lparr>agent_state := WORKING, lastActive := now 2\<rparr>))"
proof (intro conjI impI)
  assume "\<not> is_task_transition d"
  then show "\<forall>e \<in> set (new_emissions s (handleMessage now rnd (Some d) s)).
           seen_agents e = agents (handleMessage now rnd (Some d) s)
         \<and> seen_tasks e = tasks (handleMessage now rnd (Some d) s)
         \<and> seen_messages e = messages (handleMessage now rnd (Some d) s)"
    by (rule mutation_before_emission)
next
  assume h: "tasks s tid = Some t \<and> agents s aid = Some a"
  note em = task_assigned_emissions [of s tid t aid a now rnd]
  from h em show "map em_event (new_emissions s (handleMessage now rnd (Some (InTaskAssigned tid aid)) s)) =
        [TaskAssignedEvent tid aid (now 0),
         TaskUpdatedEvent (t\<lparr>task_state := ASSIGNED, assignedTo := Some aid\<rparr>)
           (TaskAssignChange ASSIGNED aid) (now 1),
         AgentStateChangedEvent aid (agent_state a) WORKING (now 3),
         AgentUpdatedEvent (a\<lparr>agent_state := WORKING, lastActive := now 2\<rparr>)
           (AgentStateChange WORKING (now 2)) (now 4)]"
    by simp
  from h em show "map seen_tasks (new_emissions s (handleMessage now rnd (Some (InTaskAssigned tid aid)) s)) =
        replicate 4 ((tasks s)(tid \<mapsto> t\<lparr>task_state := ASSIGNED, assignedTo := Some aid\<rparr>))"
    by (simp add: numeral_eq_Suc)
  from h em show "map seen_agents (new_emissions s (handleMessage now rnd (Some (InTaskAssigned tid aid)) s)) =
        [agents s, agents s,
         (agents s)(aid \<mapsto> a\<lparr>agent_state := WORKING, lastActive := now 2\<rparr>),
         (agents s)(aid \<mapsto> a\<lparr>agent_state := WORKING, lastActive := now 2\<rparr>)]"
    by simp
  from h show "agents (handleMessage now rnd (Some (InTaskAssigned tid aid)) s) =
        (agents s)(aid \<mapsto> a\<lparr>agent_state := WORKING, lastActive := now 2\<rparr>)"
    by (simp add: handleMessage_def handleTaskAssigned_def emit_simps Let_def)
qed

text \<open>The amended C1 at \<open>demo_adapter\<close>, for an \<open>agent:moved\<close> and a \<open>task:assigned\<close> event.\<close>

theorem C1_emission_order_witness:
  "\<not> is_task_transition (InAgentMoved ''A1'' pos0)
   \<and> tasks demo_adapter ''T1'' = Some demo_task
   \<and> agents demo_adapter ''A1'' = Some demo_agent
   \<and> length (new_emissions demo_adapter
        (handleMessage clock0 ''k3x9q2a'' (Some (InAgentMoved ''A1'' pos0)) demo_adapter)) = 2
   \<and> seen_agents (new_emissions demo_adapter
        (handleMessage clock0 ''k3x9q2a'' (Some (InAgentMoved ''A1'' pos0)) demo_adapter) ! 0)
      = agents (handleMessage clock0 ''k3x9q2a'' (Some (InAgentMoved ''A1'' pos0)) demo_adapter)
   \<and> map seen_agents (new_emissions demo_adapter
        (handleMessage clock0 ''k3x9q2a'' (Some (InTaskAssigned ''T1'' ''A1'')) demo_adapter))
      = [[''A1'' \<mapsto> demo_agent], [''A1'' \<mapsto> demo_agent],
         [''A1'' \<mapsto> demo_agent\<lparr>agent_state := WORKING, lastActive := clock0 2\<rparr>],
         [''A1'' \<mapsto> demo_agent\<lparr>agent_state := WORKING, lastActive := clock0 2\<rparr>]]"
proof -
  have len: "length (new_emissions demo_adapter
        (handleMessage clock0 ''k3x9q2a'' (Some (InAgentMoved ''A1'' pos0)) demo_adapter)) = 2"
    using arg_cong [OF demo_moved_emissions, of length] by simp
  then have mem: "new_emissions demo_adapter
        (handleMessage clock0 ''k3x9q2a'' (Some (InAgentMoved ''A1'' pos0)) demo_adapter) ! 0
      \<in> set (new_emissions demo_adapter
        (handleMessage clock0 ''k3x9q2a'' (Some (InAgentMoved ''A1'' pos0)) demo_adapter))"
    by simp
  have t: "tasks demo_adapter ''T1'' = Some demo_task" and a: "agents demo_adapter ''A1'' = Some demo_agent"
    by (simp_all add: demo_tasks demo_agents)
  note inst = C1_emission_order [of "InAgentMoved ''A1'' pos0" demo_adapter clock0 "''k3x9q2a''"
      "''T1''" demo_task "''A1''" demo_agent]
  from inst mem have "seen_agents (new_emissions demo_adapter
        (handleMessage clock0 ''k3x9q2a'' (Some (InAgentMoved ''A1'' pos0)) demo_adapter) ! 0)
      = agents (handleMessage clock0 ''k3x9q2a'' (Some (InAgentMoved ''A1'' pos0)) demo_adapter)"
    by simp
  moreover from inst t a have "map seen_agents (new_emissions demo_adapter
        (handleMessage clock0 ''k3x9q2a'' (Some (InTaskAssigned ''T1'' ''A1'')) demo_adapter))
      = [[''A1'' \<mapsto> demo_agent], [''A1'' \<mapsto> demo_agent],
         [''A1'' \<mapsto> demo_agent\<lparr>agent_state := WORKING, lastActive := clock0 2\<rparr>],
         [''A1'' \<mapsto> demo_agent\<lparr>agent_state := WORKING, lastActive := clock0 2\<rparr>]]"
    by (simp add: demo_agents)
  ultimately show ?thesis using len t a by simp
qed

text \<open>
  C2, as stated, fails. No agent \<open>ghost\<close> exists in \<open>demo_adapter\<close>, handler 2 is subscribed
  to \<open>agent:moved\<close>, and handling an inbound \<open>agent:moved\<close> for \<open>ghost\<close> emits nothing.
\<close>

theorem C2_counterexample:
  "agents demo_adapter ''ghost'' = None
   \<and> eventHandlers demo_adapter ''agent:moved'' = Some [2]
   \<and> new_emissions demo_adapter
       (handleMessage clock0 ''k3x9q2a'' (Some (InAgentMoved ''ghost'' pos0)) demo_adapter) = []"
  by (simp add: new_emissions_def handleMessage_def handleAgentMoved_def demo_handlers
      demo_adapter_def handleTaskAdded_def handleAgentRegistered_def
      emit_def on_def MCPAdapter_init_def Let_def demo_agent_def demo_task_def)

text \<open>
  C2, amended. An inbound \<open>agent:moved\<close> for a known agent stores the position (and the
  time of the event) in the agent, leaves its lifecycle state and everything else alone, and
  emits the "agent updated" event followed by the "agent moved" event built from the
  agent id and the position; for an unknown agent it changes nothing and emits nothing.
  An inbound \<open>task:moved\<close> changes no canonical state and is forwarded (after a "task
  updated" event) exactly when the task is known.
\<close>

theorem C2_moved:
  "(agents s aid = Some a \<longrightarrow>
      agents (handleMessage now rnd (Some (InAgentMoved aid p)) s)
        = (agents s)(aid \<mapsto> a\<lparr>agent_position := Some p, lastActive := now 0\<rparr>)
    \<and> map_option agent_state (agents (handleMessage now rnd (Some (InAgentMoved aid p)) s) aid)
        = Some (agent_state a)
    \<and> tasks (handleMessage now rnd (Some (InAgentMoved aid p)) s) = tasks s
    \<and> messages (handleMessage now rnd (Some (InAgentMoved aid p)) s) = messages s
    \<and> map em_event (new_emissions s (handleMessage now rnd (Some (InAgentMoved aid p)) s))
        = [AgentUpdatedEvent (a\<lparr>agent_position := Some p, lastActive := now 0\<rparr>)
             (AgentPositionChange p (now 0)) (now 1),
           AgentMovedEvent aid p (now 2)])
   \<and> (agents s gid = None \<longrightarrow> handleMessage now rnd (Some (InAgentMoved gid p)) s = s)
   \<and> (tasks s tid = Some t \<longrightarrow>
      agents (handleMessage now rnd (Some (InTaskMoved tid p)) s) = agents s
    \<and> tasks (handleMessage now rnd (Some (InTaskMoved tid p)) s) = tasks s
    \<and> messages (handleMessage now rnd (Some (InTaskMoved tid p)) s) = messages s
    \<and> map em_event (new_emissions s (handleMessage now rnd (Some (InTaskMoved tid p)) s))
        = [TaskUpdatedEvent t (TaskPositionChange p) (now 0), TaskMovedEvent tid p (now 1)])
   \<and> (tasks s uid = None \<longrightarrow> handleMessage now rnd (Some (InTaskMoved uid p)) s = s)"
  by (auto simp: handleMessage_def new_emissions_def handleAgentMoved_def handleTaskMoved_def
      emit_simps Let_def)

text \<open>The amended C2 at \<open>demo_adapter\<close>: known and unknown agent, known and unknown task.\<close>

theorem C2_moved_witness:
  "agents demo_adapter ''A1'' = Some demo_agent
   \<and> agents demo_adapter ''ghost'' = None
   \<and> tasks demo_adapter ''T1'' = Some demo_task
   \<and> tasks demo_adapter ''nothing'' = None
   \<and> map_option agent_state
        (agents (handleMessage clock0 ''k3x9q2a'' (Some (InAgentMoved ''A1'' pos0)) demo_adapter) ''A1'')
      = Some IDLE
   \<and> map em_event (new_emissions demo_adapter
        (handleMessage clock0 ''k3x9q2a'' (Some (InAgentMoved ''A1'' pos0)) demo_adapter))
      = [AgentUpdatedEvent (demo_agent\<lparr>agent_position := Some pos0, lastActive := clock0 0\<rparr>)
           (AgentPositionChange pos0 (clock0 0)) (clock0 1),
         AgentMovedEvent ''A1'' pos0 (clock0 2)]
   \<and> handleMessage clock0 ''k3x9q2a'' (Some (InAgentMoved ''ghost'' pos0)) demo_adapter = demo_adapter
   \<and> map em_event (new_emissions demo_adapter
        (handleMessage clock0 ''k3x9q2a'' (Some (InTaskMoved ''T1'' pos0)) demo_adapter))
      = [TaskUpdatedEvent demo_task (TaskPositionChange pos0) (clock0 0),
         TaskMovedEvent ''T1'' pos0 (clock0 1)]
   \<and> handleMessage clock0 ''k3x9q2a'' (Some (InTaskMoved ''nothing'' pos0)) demo_adapter = demo_adapter"
proof -
  have t: "tasks demo_adapter ''T1'' = Some demo_task" and a: "agents demo_adapter ''A1'' = Some demo_agent"
    and g: "agents demo_adapter ''ghost'' = None" and u: "tasks demo_adapter ''nothing'' = None"
    by (simp_all add: demo_tasks demo_agents)
  note inst = C2_moved [of demo_adapter "''A1''" demo_agent clock0 "''k3x9q2a''" pos0 "''ghost''"
      "''T1''" demo_task "''nothing''"]
  from inst t a g u show ?thesis by (simp add: demo_agent_def)
qed

text \<open>
  C10. Processing an inbound \<open>message:cleared\<close> event empties the canonical message
  history, leaves the agent and task collections as they were, and calls \<open>emit\<close> exactly
  once, with the "messages cleared" event.
\<close>

theorem C10_messages_cleared:
  "messages (handleMessage now rnd (Some InMessagesCleared) s) = []
   \<and> agents (handleMessage now rnd (Some InMessagesCleared) s) = agents s
   \<and> tasks (handleMessage now rnd (Some InMessagesCleared) s) = tasks s
   \<and> map em_event (emitted (handleMessage now rnd (Some InMessagesCleared) s))
       = map em_event (emitted s) @ [MessagesClearedEvent (now 0)]
   \<and> event_type (MessagesClearedEvent (now 0)) = ''message:cleared''"
  by (simp add: handleMessage_def handleMessagesCleared_def emit_def)



section \<open>Properties of the coordinate mapper and of the grid\<close>

lemma jadd_Fin: "jadd (Fin a) (Fin b) = Fin (a + b)"
  by (simp add: jadd_def mkfin_def)







lemma demo_grid_new: "new_IsometricGrid (demo_config 2 2) = Inr demo_grid"
  by (simp add: new_IsometricGrid_def demo_grid_def demo_config_def initializeGrid_def truthy_num_def)

lemma stack_at_wf:
  assumes "wf_grid g" and "isInBounds g x y z"
  shows "stack_at g (nat x) (nat y) = Some (grid g ! nat x ! nat y)"
    and "nat x < length (grid g)" and "nat y < length (grid g ! nat x)"
proof -
  from assms show x: "nat x < length (grid g)"
    by (simp add: wf_grid_def isInBounds_def)
  from assms x have "length (grid g ! nat x) = nat (height (config g))"
    by (simp add: wf_grid_def list_all_length)
  with assms show y: "nat y < length (grid g ! nat x)"
    by (simp add: isInBounds_def)
  from x y show "stack_at g (nat x) (nat y) = Some (grid g ! nat x ! nat y)"
    by (simp add: stack_at_def)
qed

lemma wf_set_stack: "wf_grid g \<Longrightarrow> wf_grid (set_stack g x y st)"
proof (cases "x < length (grid g)")
  case True
  assume "wf_grid g"
  with True show ?thesis
    by (auto simp: wf_grid_def set_stack_def list_all_length nth_list_update)
next
  case False
  assume "wf_grid g"
  with False show ?thesis
    by (simp add: wf_grid_def set_stack_def list_update_beyond)
qed

lemma config_set_stack: "config (set_stack g x y st) = config g"
  by (simp add: set_stack_def)

lemma isInBounds_config: "config g1 = config g \<Longrightarrow> isInBounds g1 x y z = isInBounds g x y z"
  by (simp add: isInBounds_def)

lemma grid_set_stack:
  "x < length (grid g) \<Longrightarrow> y < length (grid g ! x) \<Longrightarrow> grid (set_stack g x y st) ! x ! y = st"
  by (simp add: set_stack_def)

lemma layer_at_set_layer: "layer_at (set_layer st z c) z = Some c"
  by (simp add: layer_at_def set_layer_def nth_append)

lemma length_set_layer: "z < length (set_layer st z c)"
  by (simp add: set_layer_def)

lemma getCell_existing:
  assumes "wf_grid g" and "isInBounds g x y z" and "cell_at g x y z = Some c"
  shows "getCell g x y z = Inr (Some c, g)"
  using assms stack_at_wf(1) [OF assms(1,2)]
  by (simp add: getCell_def cell_at_def)

lemma getCell_fresh:
  assumes "wf_grid g" and "isInBounds g x y z" and "cell_at g x y z = None"
  shows "getCell g x y z = Inr (Some (default_cell x y z),
           set_stack g (nat x) (nat y) (set_layer (grid g ! nat x ! nat y) (nat z) (default_cell x y z)))"
  using assms stack_at_wf(1) [OF assms(1,2)]
  by (simp add: getCell_def cell_at_def default_cell_def Let_def)

lemma getCell_outside: "\<not> isInBounds g x y z \<Longrightarrow> getCell g x y z = Inr (None, g)"
  by (simp add: getCell_def)

lemma cell_at_Some_length: "cell_at g x y z = Some c \<Longrightarrow> nat z < length (grid g ! nat x ! nat y)"
  by (simp add: cell_at_def layer_at_def split: if_splits)

lemma getCell_inside:
  assumes "wf_grid g" and "isInBounds g x y z"
  shows "\<exists>c g1. getCell g x y z = Inr (Some c, g1) \<and> wf_grid g1 \<and> config g1 = config g
           \<and> cell_at g1 x y z = Some c
           \<and> (case cell_at g x y z of Some c0 \<Rightarrow> c = c0 \<and> g1 = g | None \<Rightarrow> c = default_cell x y z)"
proof (cases "cell_at g x y z")
  case None
  let ?g1 = "set_stack g (nat x) (nat y) (set_layer (grid g ! nat x ! nat y) (nat z) (default_cell x y z))"
  have "cell_at ?g1 x y z = Some (default_cell x y z)"
    using stack_at_wf(2,3) [OF assms]
    by (simp add: cell_at_def grid_set_stack layer_at_set_layer)
  with None assms show ?thesis
    by (simp add: getCell_fresh wf_set_stack config_set_stack)
next
  case (Some c)
  with assms show ?thesis by (simp add: getCell_existing)
qed

lemma put_cell_props:
  assumes "wf_grid g" and "isInBounds g x y z" and "cell_at g x y z = Some c"
  shows "wf_grid (put_cell g x y z c')" and "config (put_cell g x y z c') = config g"
    and "cell_at (put_cell g x y z c') x y z = Some c'"
proof -
  show "wf_grid (put_cell g x y z c')" using assms(1) by (simp add: put_cell_def wf_set_stack)
  show "config (put_cell g x y z c') = config g" by (simp add: put_cell_def config_set_stack)
  from cell_at_Some_length [OF assms(3)] stack_at_wf(2,3) [OF assms(1,2)]
  show "cell_at (put_cell g x y z c') x y z = Some c'"
    by (simp add: put_cell_def cell_at_def grid_set_stack layer_at_def)
qed

lemma isWalkable_existing:
  assumes "wf_grid g" and "isInBounds g x y z" and "cell_at g x y z = Some c"
  shows "isWalkable g x y z = Inr (walkable c, g)"
  using assms by (simp add: isWalkable_def getCell_existing)

lemma setCellType_inside:
  assumes "wf_grid g" and "isInBounds g x y z"
  shows "\<exists>c g1. getCell g x y z = Inr (Some c, g1) \<and> isWalkable g x y z = Inr (walkable c, g1)
           \<and> setCellType g x y z t =
               Inr (put_cell g1 x y z
                      (if t = WALL \<or> t = OBJECT then c\<lparr>cell_type := t, walkable := False\<rparr>
                       else c\<lparr>cell_type := t\<rparr>))
           \<and> (\<forall>c'. isWalkable (put_cell g1 x y z c') x y z = Inr (walkable c', put_cell g1 x y z c'))"
proof -
  from getCell_inside [OF assms] obtain c g1 where
    gc: "getCell g x y z = Inr (Some c, g1)" and wf1: "wf_grid g1" and cf: "config g1 = config g"
    and at: "cell_at g1 x y z = Some c"
    by (elim exE conjE)
  have inb1: "isInBounds g1 x y z" using assms(2) cf by (simp add: isInBounds_def)
  have w: "isWalkable g x y z = Inr (walkable c, g1)" using gc by (simp add: isWalkable_def)
  have s: "setCellType g x y z t =
               Inr (put_cell g1 x y z
                      (if t = WALL \<or> t = OBJECT then c\<lparr>cell_type := t, walkable := False\<rparr>
                       else c\<lparr>cell_type := t\<rparr>))"
    using gc by (simp add: setCellType_def)
  have p: "isWalkable (put_cell g1 x y z c') x y z = Inr (walkable c', put_cell g1 x y z c')" for c'
  proof -
    have "isInBounds (put_cell g1 x y z c') x y z"
      using inb1 put_cell_props(2) [OF wf1 inb1 at, of c'] by (simp add: isInBounds_def)
    then show ?thesis
      by (rule isWalkable_existing [OF put_cell_props(1) [OF wf1 inb1 at] _ put_cell_props(3) [OF wf1 inb1 at]])
  qed
  from gc w s p show ?thesis by simp
qed

text \<open>
  C7. For every cell inside the bounds of a grid and whatever its walkability was:
  after \<open>setCellType\<close> with \<open>wall\<close> or \<open>object\<close>, \<open>isWalkable\<close> answers false for the
  cell; after \<open>setCellType\<close> with \<open>floor\<close> or \<open>empty\<close>, \<open>isWalkable\<close> answers what it
  answered before.
\<close>

theorem C7_setCellType_walkable:
  assumes "wf_grid g" and "isInBounds g x y z"
  shows "(t = WALL \<or> t = OBJECT \<longrightarrow>
           (\<exists>g1. setCellType g x y z t = Inr g1 \<and> isWalkable g1 x y z = Inr (False, g1)))
       \<and> (t = FLOOR \<or> t = EMPTY \<longrightarrow>
           (\<exists>g1 g2 b. setCellType g x y z t = Inr g1 \<and> isWalkable g x y z = Inr (b, g2)
                 \<and> isWalkable g1 x y z = Inr (b, g1)))"
proof -
  from setCellType_inside [OF assms, of t] obtain c g1 where
    w: "isWalkable g x y z = Inr (walkable c, g1)"
    and s: "setCellType g x y z t =
               Inr (put_cell g1 x y z
                      (if t = WALL \<or> t = OBJECT then c\<lparr>cell_type := t, walkable := False\<rparr>
                       else c\<lparr>cell_type := t\<rparr>))"
    and p: "\<forall>c'. isWalkable (put_cell g1 x y z c') x y z = Inr (walkable c', put_cell g1 x y z c')"
    by (elim exE conjE)
  show ?thesis
  proof (intro conjI impI)
    assume t: "t = WALL \<or> t = OBJECT"
    from t s p show "\<exists>g1. setCellType g x y z t = Inr g1 \<and> isWalkable g1 x y z = Inr (False, g1)"
      by simp
  next
    assume t: "t = FLOOR \<or> t = EMPTY"
    then have "\<not> (t = WALL \<or> t = OBJECT)" by auto
    with s p w show "\<exists>g1 g2 b. setCellType g x y z t = Inr g1 \<and> isWalkable g x y z = Inr (b, g2)
                 \<and> isWalkable g1 x y z = Inr (b, g1)"
      by simp
  qed
qed















lemma wf_new_IsometricGrid: "new_IsometricGrid cfg = Inr g \<Longrightarrow> wf_grid g"
  by (auto simp: new_IsometricGrid_def wf_grid_def initializeGrid_def list_all_iff Let_def)


lemma wf_demo_grid: "wf_grid demo_grid"
  using demo_grid_new by (rule wf_new_IsometricGrid)





text \<open>C7 at the walkable cell \<open>(1, 1, 0)\<close> of a 2 by 2 grid, for \<open>wall\<close> and for \<open>floor\<close>.\<close>

theorem C7_setCellType_walkable_witness:
  "wf_grid demo_grid \<and> isInBounds demo_grid 1 1 0
   \<and> isWalkable demo_grid 1 1 0 = Inr (True, demo_grid)
   \<and> (\<exists>g1. setCellType demo_grid 1 1 0 WALL = Inr g1 \<and> isWalkable g1 1 1 0 = Inr (False, g1))
   \<and> (\<exists>g1 g2 b. setCellType demo_grid 1 1 0 FLOOR = Inr g1 \<and> isWalkable demo_grid 1 1 0 = Inr (b, g2)
         \<and> isWalkable g1 1 1 0 = Inr (b, g1))"
proof -
  have b: "isInBounds demo_grid 1 1 0"
    by (simp add: isInBounds_def demo_grid_def demo_config_def)
  have w: "isWalkable demo_grid 1 1 0 = Inr (True, demo_grid)"
    by code_simp
  from C7_setCellType_walkable [OF wf_demo_grid b, of WALL]
       C7_setCellType_walkable [OF wf_demo_grid b, of FLOOR]
  show ?thesis using wf_demo_grid b w by simp
qed

text \<open>
  C9, as stated, fails: constructing a grid of width 0 raises nothing; the constructor
  returns a grid without any column.
\<close>

theorem C9_counterexample:
  "new_IsometricGrid (demo_config 0 5) =
     Inr \<lparr>grid = [], config = \<lparr>width = 0, height = 5, tileWidth = Fin 64, tileHeight = Fin 32,
                               originX = Some (Fin 0), originY = Some (Fin 0)\<rparr>\<rparr>"
  by (simp add: new_IsometricGrid_def demo_config_def initializeGrid_def)

text \<open>
  C9, amended. The constructor accepts every configuration and never fails. With a
  non-positive width or height it returns a grid that holds no entity and has no cell
  inside its bounds: \<open>getCell\<close> returns null, \<open>isWalkable\<close> false and \<open>placeEntity\<close> false
  for every coordinate, none of them raising or changing the grid.
\<close>

theorem C9_constructor_never_fails:
  "\<exists>g. new_IsometricGrid cfg = Inr g \<and> wf_grid g
       \<and> width (config g) = width cfg \<and> height (config g) = height cfg
       \<and> (width cfg \<le> 0 \<or> height cfg \<le> 0 \<longrightarrow>
            placed g = []
          \<and> (\<forall>x y z. \<not> isInBounds g x y z)
          \<and> (\<forall>x y z. getCell g x y z = Inr (None, g))
          \<and> (\<forall>x y z. isWalkable g x y z = Inr (False, g))
          \<and> (\<forall>h e x y z. placeEntity g h e x y z = Inr (False, g, h)))"
proof -
  let ?cfg1 = "cfg\<lparr>originX := Some (or_zero (originX cfg)), originY := Some (or_zero (originY cfg))\<rparr>"
  let ?g = "\<lparr>grid = initializeGrid ?cfg1, config = ?cfg1\<rparr>"
  have n: "new_IsometricGrid cfg = Inr ?g" by (simp add: new_IsometricGrid_def Let_def)
  have wf: "wf_grid ?g" using n by (rule wf_new_IsometricGrid)
  have deg: "placed ?g = [] \<and> (\<forall>x y z. \<not> isInBounds ?g x y z)
          \<and> (\<forall>x y z. getCell ?g x y z = Inr (None, ?g))
          \<and> (\<forall>x y z. isWalkable ?g x y z = Inr (False, ?g))
          \<and> (\<forall>h e x y z. placeEntity ?g h e x y z = Inr (False, ?g, h))"
    if d: "width cfg \<le> 0 \<or> height cfg \<le> 0"
  proof -
    have ob: "\<not> isInBounds ?g x y z" for x y z
      using d by (auto simp: isInBounds_def)
    have gc: "getCell ?g x y z = Inr (None, ?g)" for x y z
      using ob [of x y z] by (rule getCell_outside)
    have pl: "placed ?g = []"
      using d by (auto simp: placed_def initializeGrid_def)
    from ob gc pl show ?thesis
      by (simp add: isWalkable_def placeEntity_def)
  qed
  from n wf deg show ?thesis by simp
qed

text \<open>The amended C9 at width 0 and height 5.\<close>

theorem C9_constructor_never_fails_witness:
  "(width (demo_config 0 5) \<le> 0 \<or> height (demo_config 0 5) \<le> 0)
   \<and> (\<exists>g. new_IsometricGrid (demo_config 0 5) = Inr g \<and> placed g = []
          \<and> getCell g 0 0 0 = Inr (None, g)
          \<and> placeEntity g blank_heap 1 0 0 0 = Inr (False, g, blank_heap))"
proof -
  have d: "width (demo_config 0 5) \<le> 0 \<or> height (demo_config 0 5) \<le> 0"
    by (simp add: demo_config_def)
  from C9_constructor_never_fails [of "demo_config 0 5"] d show ?thesis
    by auto
qed


section \<open>Properties of the animation engine\<close>

lemma animation_apply_property: "animation (apply_property p e pv) = animation e"
  by (simp add: apply_property_def Let_def)

lemma animation_foldl_apply:
  "animation (foldl (apply_property p) e pvs) = animation e"
  by (induction pvs arbitrary: e) (simp_all add: animation_apply_property)

lemma animate_entity_inactive: "\<not> is_active e \<Longrightarrow> animate_entity dt e = (e, None)"
  by (simp add: animate_entity_def is_active_def split: option.splits)

lemma animate_entity_completes:
  assumes "animation e = Some a" and "active a" and "jge (progress_of a dt) (Fin 1)"
  shows "animation (fst (animate_entity dt e)) = Some (a\<lparr>elapsed := jadd (elapsed a) dt, active := False\<rparr>)"
    and "snd (animate_entity dt e) = onComplete a"
  using assms by (simp_all add: animate_entity_def Let_def)

lemma animate_entity_callback:
  "callback_of (fst (animate_entity dt e)) = callback_of e"
  "snd (animate_entity dt e) = None \<or> snd (animate_entity dt e) = callback_of e"
  by (simp_all add: animate_entity_def callback_of_def Let_def animation_foldl_apply
      split: option.splits)

lemma callbacks_of_append: "callbacks_of r (xs @ ys) = callbacks_of r xs @ callbacks_of r ys"
  by (simp add: callbacks_of_def)

lemma callbacks_of_other: "r' \<noteq> r \<Longrightarrow> callbacks_of r (option_list (map_option (Pair r') c)) = []"
  by (cases c) (simp_all add: callbacks_of_def)

lemma callbacks_of_same: "callbacks_of r (option_list (map_option (Pair r) c)) = option_list c"
  by (cases c) (simp_all add: callbacks_of_def)

lemma animate_ref_alt:
  "animate_ref dt (h, fired) r =
     (h(r := fst (animate_entity dt (h r))),
      fired @ option_list (map_option (Pair r) (snd (animate_entity dt (h r)))))"
  by (cases "snd (animate_entity dt (h r))") (simp_all add: animate_ref_def Let_def)

lemma set_option_list: "set (option_list c) = set_option c"
  by (cases c) simp_all

lemma animate_ref_step:
  obtains h1 f1 where "animate_ref dt (h, fired) r' = (h1, f1)"
    and "h1 r' = fst (animate_entity dt (h r'))"
    and "\<And>x. x \<noteq> r' \<Longrightarrow> h1 x = h x"
    and "\<And>r. callbacks_of r f1 =
           callbacks_of r fired @ (if r = r' then option_list (snd (animate_entity dt (h r'))) else [])"
proof -
  let ?h1 = "h(r' := fst (animate_entity dt (h r')))"
  let ?f1 = "fired @ option_list (map_option (Pair r') (snd (animate_entity dt (h r'))))"
  have "animate_ref dt (h, fired) r' = (?h1, ?f1)" by (rule animate_ref_alt)
  moreover have "?h1 r' = fst (animate_entity dt (h r'))" by simp
  moreover have "\<And>x. x \<noteq> r' \<Longrightarrow> ?h1 x = h x" by simp
  moreover have "\<And>r. callbacks_of r ?f1 =
           callbacks_of r fired @ (if r = r' then option_list (snd (animate_entity dt (h r'))) else [])"
    by (simp add: callbacks_of_append callbacks_of_same callbacks_of_other)
  ultimately show ?thesis by (rule that)
qed

text \<open>An entity without an active animation is left alone by any number of frames.\<close>

lemma foldl_inactive:
  "\<not> is_active (h r) \<Longrightarrow>
     fst (foldl (animate_ref dt) (h, fired) rs) r = h r
   \<and> callbacks_of r (snd (foldl (animate_ref dt) (h, fired) rs)) = callbacks_of r fired"
proof (induction rs arbitrary: h fired)
  case Nil
  then show ?case by simp
next
  case (Cons r' rs)
  obtain h1 f1 where st: "animate_ref dt (h, fired) r' = (h1, f1)"
    and same: "h1 r' = fst (animate_entity dt (h r'))"
    and other: "\<And>x. x \<noteq> r' \<Longrightarrow> h1 x = h x"
    and cbs: "\<And>r. callbacks_of r f1 =
           callbacks_of r fired @ (if r = r' then option_list (snd (animate_entity dt (h r'))) else [])"
    by (rule animate_ref_step [of dt h fired r']) blast
  have h1: "h1 r = h r"
  proof (cases "r = r'")
    case True
    with same Cons.prems show ?thesis by (simp add: animate_entity_inactive)
  next
    case False
    then show ?thesis by (rule other)
  qed
  have f1: "callbacks_of r f1 = callbacks_of r fired"
    using cbs [of r] Cons.prems by (auto simp: animate_entity_inactive)
  from Cons.prems h1 have na: "\<not> is_active (h1 r)" by simp
  have "fst (foldl (animate_ref dt) (h1, f1) rs) r = h1 r
      \<and> callbacks_of r (snd (foldl (animate_ref dt) (h1, f1) rs)) = callbacks_of r f1"
    using na by (rule Cons.IH)
  with st h1 f1 show ?case by simp
qed

lemma processAnimations_inactive:
  assumes "\<not> is_active (h r)"
  shows "fst (processAnimations h th dt) r = h r"
    and "callbacks_of r (snd (processAnimations h th dt)) = []"
proof -
  have "fst (foldl (animate_ref dt) (h, []) (map snd (theme_entities th))) r = h r
      \<and> callbacks_of r (snd (foldl (animate_ref dt) (h, []) (map snd (theme_entities th))))
          = callbacks_of r []"
    using assms by (rule foldl_inactive)
  then show "fst (processAnimations h th dt) r = h r"
    and "callbacks_of r (snd (processAnimations h th dt)) = []"
    by (simp_all add: processAnimations_def callbacks_of_def)
qed

lemma frames_inactive:
  "\<not> is_active (h r) \<Longrightarrow>
     fst (frames dts h th) r = h r \<and> callbacks_of r (snd (frames dts h th)) = []"
proof (induction dts arbitrary: h)
  case Nil
  then show ?case by (simp add: callbacks_of_def)
next
  case (Cons dt dts)
  have a: "fst (processAnimations h th dt) r = h r"
    using Cons.prems by (rule processAnimations_inactive(1))
  have b: "callbacks_of r (snd (processAnimations h th dt)) = []"
    using Cons.prems by (rule processAnimations_inactive(2))
  from Cons.prems a have na: "\<not> is_active (fst (processAnimations h th dt) r)" by simp
  have "fst (frames dts (fst (processAnimations h th dt)) th) r = fst (processAnimations h th dt) r
      \<and> callbacks_of r (snd (frames dts (fst (processAnimations h th dt)) th)) = []"
    using na by (rule Cons.IH)
  with a b show ?case
    by (simp add: Let_def callbacks_of_append)
qed

text \<open>One frame, for a theme that holds every entity object once.\<close>

lemma foldl_distinct:
  "distinct rs \<Longrightarrow>
     fst (foldl (animate_ref dt) (h, fired) rs) r
       = (if r \<in> set rs then fst (animate_entity dt (h r)) else h r)
   \<and> callbacks_of r (snd (foldl (animate_ref dt) (h, fired) rs))
       = callbacks_of r fired @ (if r \<in> set rs then option_list (snd (animate_entity dt (h r))) else [])"
proof (induction rs arbitrary: h fired)
  case Nil
  then show ?case by simp
next
  case (Cons r' rs)
  obtain h1 f1 where st: "animate_ref dt (h, fired) r' = (h1, f1)"
    and same: "h1 r' = fst (animate_entity dt (h r'))"
    and other: "\<And>x. x \<noteq> r' \<Longrightarrow> h1 x = h x"
    and cbs: "\<And>r. callbacks_of r f1 =
           callbacks_of r fired @ (if r = r' then option_list (snd (animate_entity dt (h r'))) else [])"
    by (rule animate_ref_step [of dt h fired r']) blast
  from Cons.prems have d: "distinct rs" and n: "r' \<notin> set rs" by simp_all
  have ih: "fst (foldl (animate_ref dt) (h1, f1) rs) r
       = (if r \<in> set rs then fst (animate_entity dt (h1 r)) else h1 r)
   \<and> callbacks_of r (snd (foldl (animate_ref dt) (h1, f1) rs))
       = callbacks_of r f1 @ (if r \<in> set rs then option_list (snd (animate_entity dt (h1 r))) else [])"
    using d by (rule Cons.IH)
  show ?case
  proof (cases "r = r'")
    case True
    with n ih st same cbs [of r] show ?thesis by simp
  next
    case False
    with ih st other [of r] cbs [of r] show ?thesis by simp
  qed
qed

lemma processAnimations_distinct:
  assumes "distinct (map snd (theme_entities th))" and "r \<in> set (map snd (theme_entities th))"
  shows "fst (processAnimations h th dt) r = fst (animate_entity dt (h r))"
    and "callbacks_of r (snd (processAnimations h th dt)) = option_list (snd (animate_entity dt (h r)))"
proof -
  have "fst (foldl (animate_ref dt) (h, []) (map snd (theme_entities th))) r
       = (if r \<in> set (map snd (theme_entities th)) then fst (animate_entity dt (h r)) else h r)
   \<and> callbacks_of r (snd (foldl (animate_ref dt) (h, []) (map snd (theme_entities th))))
       = callbacks_of r [] @ (if r \<in> set (map snd (theme_entities th))
                              then option_list (snd (animate_entity dt (h r))) else [])"
    using assms(1) by (rule foldl_distinct)
  with assms(2) show "fst (processAnimations h th dt) r = fst (animate_entity dt (h r))"
    and "callbacks_of r (snd (processAnimations h th dt)) = option_list (snd (animate_entity dt (h r)))"
    by (simp_all add: processAnimations_def callbacks_of_def)
qed

text \<open>Callbacks: only the current callback of an entity is ever invoked for it.\<close>

lemma foldl_callbacks:
  "callback_of (fst (foldl (animate_ref dt) (h, fired) rs) r) = callback_of (h r)
   \<and> set (callbacks_of r (snd (foldl (animate_ref dt) (h, fired) rs)))
       \<subseteq> set (callbacks_of r fired) \<union> set_option (callback_of (h r))"
proof (induction rs arbitrary: h fired)
  case Nil
  then show ?case by simp
next
  case (Cons r' rs)
  obtain h1 f1 where st: "animate_ref dt (h, fired) r' = (h1, f1)"
    and same: "h1 r' = fst (animate_entity dt (h r'))"
    and other: "\<And>x. x \<noteq> r' \<Longrightarrow> h1 x = h x"
    and cbs: "\<And>r. callbacks_of r f1 =
           callbacks_of r fired @ (if r = r' then option_list (snd (animate_entity dt (h r'))) else [])"
    by (rule animate_ref_step [of dt h fired r']) blast
  have c1: "callback_of (h1 r) = callback_of (h r)"
  proof (cases "r = r'")
    case True
    with same show ?thesis by (simp add: animate_entity_callback(1))
  next
    case False
    then show ?thesis by (simp add: other)
  qed
  have f1: "set (callbacks_of r f1) \<subseteq> set (callbacks_of r fired) \<union> set_option (callback_of (h r))"
    using cbs [of r] animate_entity_callback(2) [of dt "h r"]
    by (auto simp: set_option_list)
  have "callback_of (fst (foldl (animate_ref dt) (h1, f1) rs) r) = callback_of (h1 r)
   \<and> set (callbacks_of r (snd (foldl (animate_ref dt) (h1, f1) rs)))
       \<subseteq> set (callbacks_of r f1) \<union> set_option (callback_of (h1 r))"
    by (rule Cons.IH)
  with st c1 f1 show ?case by auto
qed

lemma frames_callbacks:
  "callback_of (fst (frames dts h th) r) = callback_of (h r)
   \<and> set (callbacks_of r (snd (frames dts h th))) \<subseteq> set_option (callback_of (h r))"
proof (induction dts arbitrary: h)
  case Nil
  then show ?case by (simp add: callbacks_of_def)
next
  case (Cons dt dts)
  have "callback_of (fst (foldl (animate_ref dt) (h, []) (map snd (theme_entities th))) r) = callback_of (h r)
   \<and> set (callbacks_of r (snd (foldl (animate_ref dt) (h, []) (map snd (theme_entities th)))))
       \<subseteq> set (callbacks_of r []) \<union> set_option (callback_of (h r))"
    by (rule foldl_callbacks)
  then have a: "callback_of (fst (processAnimations h th dt) r) = callback_of (h r)"
    and b: "set (callbacks_of r (snd (processAnimations h th dt))) \<subseteq> set_option (callback_of (h r))"
    by (simp_all add: processAnimations_def callbacks_of_def)
  have "callback_of (fst (frames dts (fst (processAnimations h th dt)) th) r)
          = callback_of (fst (processAnimations h th dt) r)
   \<and> set (callbacks_of r (snd (frames dts (fst (processAnimations h th dt)) th)))
       \<subseteq> set_option (callback_of (fst (processAnimations h th dt) r))"
    by (rule Cons.IH)
  with a b show ?case
    by (auto simp: Let_def callbacks_of_append)
qed

text \<open>The progress computed by a step.\<close>

lemma progress_zero_duration:
  assumes "duration a = Fin 0" and "jlt (Fin 0) (jadd (elapsed a) dt)"
  shows "progress_of a dt = Fin 1"
proof -
  have "jdiv (jadd (elapsed a) dt) (Fin 0) = PInf"
    using assms(2) by (cases "jadd (elapsed a) dt") (simp_all add: jdiv_def mkinf_def)
  then show ?thesis using assms(1) by (simp add: progress_of_def Math_min_def)
qed

lemma progress_elapsed:
  assumes "duration a = Fin d" and "0 < d" and "elapsed a = Fin e" and "d \<le> e + t"
  shows "progress_of a (Fin t) = Fin 1"
proof -
  from assms(2,4) have q: "1 \<le> (e + t) / d" by (simp add: field_simps)
  then have "(e + t) / d \<noteq> 0" by auto
  then have "jdiv (Fin (e + t)) (Fin d) = Fin ((e + t) / d)"
    using assms(2) by (simp add: jdiv_def mkfin_def)
  with q assms(1,3) show ?thesis
    by (auto simp: progress_of_def Math_min_def jadd_Fin)
qed

lemma map_of_map_set: "map_of (map_set k v kvs) = (map_of kvs)(k \<mapsto> v)"
  by (induction kvs) (auto simp: fun_upd_twist)

text \<open>
  C3, as stated, fails. With a duration of \<open>-100\<close> a step of 16 ms computes the progress
  \<open>-4/25\<close>; with a duration of 0 and a first step of 0 ms the quotient \<open>0 / 0\<close> is NaN.
  In both cases the animation stays active and no callback is invoked.
\<close>

theorem C3_counterexample:
  "progress_of (move_animation (Fin (- 100)) (Fin 0)) (Fin 16) = Fin (- 4 / 25)
   \<and> active_after (processAnimations (moving_heap (Fin (- 100)) (Fin 0)) one_entity_theme (Fin 16)) 1
       = Some True
   \<and> snd (processAnimations (moving_heap (Fin (- 100)) (Fin 0)) one_entity_theme (Fin 16)) = []
   \<and> progress_of (move_animation (Fin 0) (Fin 0)) (Fin 0) = NaN
   \<and> active_after (processAnimations (moving_heap (Fin 0) (Fin 0)) one_entity_theme (Fin 0)) 1
       = Some True
   \<and> snd (processAnimations (moving_heap (Fin 0) (Fin 0)) one_entity_theme (Fin 0)) = []"
  by code_simp

text \<open>
  C3, amended. For an entity whose active animation has duration 0, a step after which the
  elapsed time is positive (any step of positive length) computes the progress 1: the
  quotient by zero is \<open>+Infinity\<close>, which \<open>Math.min\<close> brings down to 1. The step marks
  the animation inactive and invokes its completion callback, once.
\<close>

theorem C3_zero_duration:
  assumes "animation (h r) = Some a" and "active a" and "duration a = Fin 0"
    and "jlt (Fin 0) (jadd (elapsed a) dt)"
    and "distinct (map snd (theme_entities th))" and "r \<in> set (map snd (theme_entities th))"
  shows "progress_of a dt = Fin 1
       \<and> active_after (processAnimations h th dt) r = Some False
       \<and> callbacks_of r (snd (processAnimations h th dt)) = option_list (onComplete a)"
proof -
  have p: "progress_of a dt = Fin 1"
    using assms(3,4) by (rule progress_zero_duration)
  then have g: "jge (progress_of a dt) (Fin 1)" by (simp add: jge_def)
  note c = animate_entity_completes [OF assms(1,2) g]
  from processAnimations_distinct [OF assms(5,6), of h dt] c p show ?thesis
    by (simp add: active_after_def)
qed

text \<open>The amended C3 for a fresh animation of duration 0 and a step of 16 ms.\<close>

theorem C3_zero_duration_witness:
  "animation (moving_heap (Fin 0) (Fin 0) 1) = Some (move_animation (Fin 0) (Fin 0))
   \<and> active (move_animation (Fin 0) (Fin 0))
   \<and> duration (move_animation (Fin 0) (Fin 0)) = Fin 0
   \<and> jlt (Fin 0) (jadd (elapsed (move_animation (Fin 0) (Fin 0))) (Fin 16))
   \<and> distinct (map snd (theme_entities one_entity_theme))
   \<and> 1 \<in> set (map snd (theme_entities one_entity_theme))
   \<and> active_after (processAnimations (moving_heap (Fin 0) (Fin 0)) one_entity_theme (Fin 16)) 1
       = Some False
   \<and> callbacks_of 1 (snd (processAnimations (moving_heap (Fin 0) (Fin 0)) one_entity_theme (Fin 16)))
       = [7]"
proof -
  have a: "animation (moving_heap (Fin 0) (Fin 0) 1) = Some (move_animation (Fin 0) (Fin 0))"
    by (simp add: moving_heap_def)
  have b: "active (move_animation (Fin 0) (Fin 0))"
    and c: "duration (move_animation (Fin 0) (Fin 0)) = Fin 0"
    and d: "jlt (Fin 0) (jadd (elapsed (move_animation (Fin 0) (Fin 0))) (Fin 16))"
    by (simp_all add: move_animation_def jadd_Fin)
  have e: "distinct (map snd (theme_entities one_entity_theme))"
    and f: "1 \<in> set (map snd (theme_entities one_entity_theme))"
    by (simp_all add: one_entity_theme_def)
  from C3_zero_duration [where h = "moving_heap (Fin 0) (Fin 0)" and r = 1
        and a = "move_animation (Fin 0) (Fin 0)" and dt = "Fin 16" and th = one_entity_theme]
    a b c d e f
  show ?thesis
    by (simp add: move_animation_def)
qed

text \<open>
  C4. When a step brings the elapsed time of an active animation up to its (positive)
  duration, the step marks the animation inactive and invokes the completion callback once;
  after that, any number of further steps, of whatever length, leave the entity exactly as
  it is and invoke no callback for it. The same holds from any state in which the animation
  of the entity is inactive.
\<close>

theorem C4_idempotent:
  assumes "animation (h r) = Some a" and "active a"
    and "duration a = Fin d" and "0 < d" and "elapsed a = Fin e" and "d \<le> e + t"
    and "distinct (map snd (theme_entities th))" and "r \<in> set (map snd (theme_entities th))"
  shows "active_after (processAnimations h th (Fin t)) r = Some False
       \<and> callbacks_of r (snd (processAnimations h th (Fin t))) = option_list (onComplete a)
       \<and> (\<forall>dts. fst (frames dts (fst (processAnimations h th (Fin t))) th) r
                    = fst (processAnimations h th (Fin t)) r
                \<and> callbacks_of r (snd (frames dts (fst (processAnimations h th (Fin t))) th)) = [])
       \<and> (\<forall>h' th' dts. \<not> is_active (h' r) \<longrightarrow>
              fst (frames dts h' th') r = h' r \<and> callbacks_of r (snd (frames dts h' th')) = [])"
proof -
  have p: "progress_of a (Fin t) = Fin 1"
    using assms(3,4,5,6) by (rule progress_elapsed)
  then have g: "jge (progress_of a (Fin t)) (Fin 1)" by (simp add: jge_def)
  note c = animate_entity_completes [OF assms(1,2) g]
  note pd = processAnimations_distinct [OF assms(7,8), of h "Fin t"]
  from pd c have off: "active_after (processAnimations h th (Fin t)) r = Some False"
    and cb: "callbacks_of r (snd (processAnimations h th (Fin t))) = option_list (onComplete a)"
    by (simp_all add: active_after_def)
  from off have na: "\<not> is_active (fst (processAnimations h th (Fin t)) r)"
    by (auto simp: active_after_def is_active_def split: option.splits)
  have "fst (frames dts (fst (processAnimations h th (Fin t))) th) r
                    = fst (processAnimations h th (Fin t)) r
                \<and> callbacks_of r (snd (frames dts (fst (processAnimations h th (Fin t))) th)) = []" for dts
    using na by (rule frames_inactive)
  with off cb show ?thesis by (simp add: frames_inactive)
qed

text \<open>C4 for an animation of 1000 ms, 300 ms into it, and steps of 700, 16 and 17 ms.\<close>

theorem C4_idempotent_witness:
  "animation (moving_heap (Fin 1000) (Fin 300) 1) = Some (move_animation (Fin 1000) (Fin 300))
   \<and> active (move_animation (Fin 1000) (Fin 300))
   \<and> duration (move_animation (Fin 1000) (Fin 300)) = Fin 1000 \<and> (0::rat) < 1000
   \<and> elapsed (move_animation (Fin 1000) (Fin 300)) = Fin 300 \<and> (1000::rat) \<le> 300 + 700
   \<and> distinct (map snd (theme_entities one_entity_theme))
   \<and> 1 \<in> set (map snd (theme_entities one_entity_theme))
   \<and> callbacks_of 1 (snd (processAnimations (moving_heap (Fin 1000) (Fin 300)) one_entity_theme (Fin 700)))
       = [7]
   \<and> fst (frames [Fin 16, Fin 17]
            (fst (processAnimations (moving_heap (Fin 1000) (Fin 300)) one_entity_theme (Fin 700)))
            one_entity_theme) 1
       = fst (processAnimations (moving_heap (Fin 1000) (Fin 300)) one_entity_theme (Fin 700)) 1
   \<and> callbacks_of 1 (snd (frames [Fin 16, Fin 17]
            (fst (processAnimations (moving_heap (Fin 1000) (Fin 300)) one_entity_theme (Fin 700)))
            one_entity_theme)) = []
   \<and> \<not> is_active (blank_heap 1)
   \<and> fst (frames [Fin 16, Fin 17] blank_heap one_entity_theme) 1 = blank_heap 1"
proof -
  have a: "animation (moving_heap (Fin 1000) (Fin 300) 1) = Some (move_animation (Fin 1000) (Fin 300))"
    by (simp add: moving_heap_def)
  have b: "active (move_animation (Fin 1000) (Fin 300))"
    and c: "duration (move_animation (Fin 1000) (Fin 300)) = Fin 1000"
    and d: "elapsed (move_animation (Fin 1000) (Fin 300)) = Fin 300"
    by (simp_all add: move_animation_def)
  have p: "(0::rat) < 1000" and q: "(1000::rat) \<le> 300 + 700" by simp_all
  have e: "distinct (map snd (theme_entities one_entity_theme))"
    and f: "1 \<in> set (map snd (theme_entities one_entity_theme))"
    by (simp_all add: one_entity_theme_def)
  note inst = C4_idempotent [where h = "moving_heap (Fin 1000) (Fin 300)" and r = 1
        and a = "move_animation (Fin 1000) (Fin 300)" and d = 1000 and e = 300 and t = 700
        and th = one_entity_theme, OF a b c p d q e f]
  from inst have k1: "callbacks_of 1 (snd (processAnimations (moving_heap (Fin 1000) (Fin 300))
                        one_entity_theme (Fin 700))) = [7]"
    by (simp add: move_animation_def)
  from inst have k2: "fst (frames [Fin 16, Fin 17]
            (fst (processAnimations (moving_heap (Fin 1000) (Fin 300)) one_entity_theme (Fin 700)))
            one_entity_theme) 1
       = fst (processAnimations (moving_heap (Fin 1000) (Fin 300)) one_entity_theme (Fin 700)) 1
   \<and> callbacks_of 1 (snd (frames [Fin 16, Fin 17]
            (fst (processAnimations (moving_heap (Fin 1000) (Fin 300)) one_entity_theme (Fin 700)))
            one_entity_theme)) = []"
    by blast
  have na: "\<not> is_active (blank_heap 1)"
    by (simp add: is_active_def blank_heap_def blank_entity_def)
  with inst have k3: "fst (frames [Fin 16, Fin 17] blank_heap one_entity_theme) 1 = blank_heap 1"
    by blast
  from a b c d e f k1 k2 na k3 show ?thesis
    by (simp del: frames.simps)
qed

text \<open>
  C8, as stated, fails. An entity is on its way (tracked property \<open>position\<close>, 300 ms of
  1000 ms, at \<open>x = 30\<close>) when an animation of the property \<open>color\<close> over 250 ms is
  started on it. The animation then tracks both properties, and the next step of 125 ms
  moves the entity to \<open>x = 50\<close>: the position tracked by the previous animation still
  drives the entity.
\<close>

theorem C8_counterexample:
  "ent_position (moving_heap (Fin 1000) (Fin 300) 1) = \<lparr>px = Fin 30, py = Fin 0, pz = None\<rparr>
   \<and> tracked (moving_heap (Fin 1000) (Fin 300) 1) = [''position'']
   \<and> tracked (fst (createAnimation (moving_heap (Fin 1000) (Fin 300)) one_entity_theme 1
                     ''color'' JObj JObj (Some (Fin 250)) None) 1) = [''position'', ''color'']
   \<and> ent_position (entity_after
        (then_frame (createAnimation (moving_heap (Fin 1000) (Fin 300)) one_entity_theme 1
                       ''color'' JObj JObj (Some (Fin 250)) None) (Fin 125)) 1)
       = \<lparr>px = Fin 50, py = Fin 0, pz = None\<rparr>"
  by code_simp

text \<open>
  C8, amended. Starting an animation on an entity that already has one keeps the animation
  object: it becomes active, its elapsed time is reset, its duration and its completion
  callback are replaced, and the tracked property of the given name is replaced, while the
  properties tracked under other names are kept. From then on no step invokes any callback
  for the entity but the new one; the previous callback is never invoked.
\<close>

theorem C8_createAnimation:
  assumes "animation (h r) = Some a"
  shows "animation (fst (createAnimation h th r property startValue endValue dur cb) r) =
           Some (a\<lparr>active := True,
                   duration := (case dur of None \<Rightarrow> Fin 500 | Some v \<Rightarrow> v),
                   elapsed := Fin 0,
                   onComplete := cb,
                   properties := map_set property
                     \<lparr>prop_start = spread startValue, prop_end = spread endValue,
                      prop_current = spread startValue\<rparr> (properties a)\<rparr>)
       \<and> map_of (map_set property
                    \<lparr>prop_start = spread startValue, prop_end = spread endValue,
                     prop_current = spread startValue\<rparr> (properties a))
           = (map_of (properties a))(property \<mapsto>
                    \<lparr>prop_start = spread startValue, prop_end = spread endValue,
                     prop_current = spread startValue\<rparr>)
       \<and> (\<forall>dts. set (callbacks_of r
                   (snd (frames dts (fst (createAnimation h th r property startValue endValue dur cb))
                                    (snd (createAnimation h th r property startValue endValue dur cb)))))
                 \<subseteq> set_option cb)"
proof -
  let ?c = "createAnimation h th r property startValue endValue dur cb"
  have an: "animation (fst ?c r) =
           Some (a\<lparr>active := True,
                   duration := (case dur of None \<Rightarrow> Fin 500 | Some v \<Rightarrow> v),
                   elapsed := Fin 0,
                   onComplete := cb,
                   properties := map_set property
                     \<lparr>prop_start = spread startValue, prop_end = spread endValue,
                      prop_current = spread startValue\<rparr> (properties a)\<rparr>)"
    using assms by (simp add: createAnimation_def Let_def)
  then have cbk: "callback_of (fst ?c r) = cb" by (simp add: callback_of_def)
  have "set (callbacks_of r (snd (frames dts (fst ?c) (snd ?c)))) \<subseteq> set_option cb" for dts
    using frames_callbacks [of dts "fst ?c" "snd ?c" r] cbk by simp
  with an show ?thesis by (simp add: map_of_map_set)
qed

text \<open>The amended C8 for the moving entity: callback 7 is replaced by callback 8.\<close>

theorem C8_createAnimation_witness:
  "animation (moving_heap (Fin 1000) (Fin 300) 1) = Some (move_animation (Fin 1000) (Fin 300))
   \<and> map_option onComplete (animation (moving_heap (Fin 1000) (Fin 300) 1)) = Some (Some 7)
   \<and> map_option onComplete
       (animation (fst (createAnimation (moving_heap (Fin 1000) (Fin 300)) one_entity_theme 1
                          ''color'' JObj JObj (Some (Fin 250)) (Some 8)) 1)) = Some (Some 8)
   \<and> set (callbacks_of 1 (snd (frames [Fin 125, Fin 125, Fin 125]
        (fst (createAnimation (moving_heap (Fin 1000) (Fin 300)) one_entity_theme 1
                ''color'' JObj JObj (Some (Fin 250)) (Some 8)))
        (snd (createAnimation (moving_heap (Fin 1000) (Fin 300)) one_entity_theme 1
                ''color'' JObj JObj (Some (Fin 250)) (Some 8)))))) \<subseteq> {8}"
proof -
  have a: "animation (moving_heap (Fin 1000) (Fin 300) 1) = Some (move_animation (Fin 1000) (Fin 300))"
    by (simp add: moving_heap_def)
  note inst = C8_createAnimation [where h = "moving_heap (Fin 1000) (Fin 300)" and r = 1
        and a = "move_animation (Fin 1000) (Fin 300)" and th = one_entity_theme
        and property = "''color''" and startValue = JObj and endValue = JObj
        and dur = "Some (Fin 250)" and cb = "Some 8", OF a]
  from inst have k1: "map_option onComplete
       (animation (fst (createAnimation (moving_heap (Fin 1000) (Fin 300)) one_entity_theme 1
                          ''color'' JObj JObj (Some (Fin 250)) (Some 8)) 1)) = Some (Some 8)"
    by simp
  from inst have k2: "set (callbacks_of 1 (snd (frames [Fin 125, Fin 125, Fin 125]
        (fst (createAnimation (moving_heap (Fin 1000) (Fin 300)) one_entity_theme 1
                ''color'' JObj JObj (Some (Fin 250)) (Some 8)))
        (snd (createAnimation (moving_heap (Fin 1000) (Fin 300)) one_entity_theme 1
                ''color'' JObj JObj (Some (Fin 250)) (Some 8)))))) \<subseteq> set_option (Some 8)"
    by blast
  from a k1 k2 show ?thesis
    by (simp add: move_animation_def del: frames.simps)
qed

end
